theory Spec2Isabelle
  imports Main "HOL-Library.Word" "HOL-Library.Monad_Syntax"
begin

unbundle bit_operations_syntax

section \<open>Nanopond-CH: machine types and tunable parameters\<close>

text \<open>
  The embedding follows \<^verbatim>\<open>nanopond-ch.c\<close>. It fixes an LP64 target:
  \<^verbatim>\<open>uintptr_t\<close> and \<^verbatim>\<open>unsigned long\<close> are 64 bits wide, so \<^verbatim>\<open>getRandom\<close> takes its
  \<^verbatim>\<open>sizeof(uintptr_t) == 8\<close> branch. C arrays of static size are functions from
  the index, and every array access goes through a bounds check against the
  declared size: the result \<open>None\<close> stands for an access outside the array (or a
  division by zero), which is undefined behaviour in C.
\<close>

type_synonym uint8 = "8 word"
type_synonym uint32 = "32 word"
type_synonym uint64 = "64 word"
type_synonym uintptr = "64 word"

definition POND_SIZE_X :: nat where "POND_SIZE_X = 640"
definition POND_SIZE_Y :: nat where "POND_SIZE_Y = 480"
definition POND_DEPTH :: nat where "POND_DEPTH = 512"
definition MUTATION_RATE :: uintptr where "MUTATION_RATE = 100000"
definition INFLOW_RATE_BASE :: uintptr where "INFLOW_RATE_BASE = 2000"
definition INFLOW_RATE_VARIATION :: uintptr where "INFLOW_RATE_VARIATION = 4000"
definition CELL_ENERGY_CAP :: uintptr where "CELL_ENERGY_CAP = 10000"
definition FAILED_KILL_PENALTY :: uintptr where "FAILED_KILL_PENALTY = 3"
definition REPRODUCTION_COST :: uintptr where "REPRODUCTION_COST = 20"
definition EXEC_START_INST :: uintptr where "EXEC_START_INST = 0"
definition COMBINE_SENSE :: int where "COMBINE_SENSE = 0"

definition NUM_INST :: nat where "NUM_INST = 32"
definition INST_MASK :: uintptr where "INST_MASK = 31"
definition REG_BITS :: nat where "REG_BITS = 8"
definition REG_MASK :: uintptr where "REG_MASK = 255"
definition LOGO_MASK :: uintptr where "LOGO_MASK = 31"
definition FACING_MASK :: uintptr where "FACING_MASK = 31"
definition RAM_SIZE :: nat where "RAM_SIZE = 16"
definition RAM_MASK :: uintptr where "RAM_MASK = 15"
definition MEM_MASK :: uintptr where "MEM_MASK = 31"

text \<open>The instruction enumeration, in the order of the source.\<close>

definition OP_STOP :: uintptr where "OP_STOP = 0"
definition OP_FWD :: uintptr where "OP_FWD = 1"
definition OP_BACK :: uintptr where "OP_BACK = 2"
definition OP_INC :: uintptr where "OP_INC = 3"
definition OP_DEC :: uintptr where "OP_DEC = 4"
definition OP_READG :: uintptr where "OP_READG = 5"
definition OP_WRITEG :: uintptr where "OP_WRITEG = 6"
definition OP_READO :: uintptr where "OP_READO = 7"
definition OP_WRITEO :: uintptr where "OP_WRITEO = 8"
definition OP_LOOP :: uintptr where "OP_LOOP = 9"
definition OP_REP :: uintptr where "OP_REP = 10"
definition OP_TURN :: uintptr where "OP_TURN = 11"
definition OP_XCHG :: uintptr where "OP_XCHG = 12"
definition OP_KILL :: uintptr where "OP_KILL = 13"
definition OP_SHARE :: uintptr where "OP_SHARE = 14"
definition OP_ZERO :: uintptr where "OP_ZERO = 15"
definition OP_SETP :: uintptr where "OP_SETP = 16"
definition OP_NEXTB :: uintptr where "OP_NEXTB = 17"
definition OP_PREVB :: uintptr where "OP_PREVB = 18"
definition OP_NEXTM :: uintptr where "OP_NEXTM = 19"
definition OP_PREVM :: uintptr where "OP_PREVM = 20"
definition OP_READM :: uintptr where "OP_READM = 21"
definition OP_WRITEM :: uintptr where "OP_WRITEM = 22"
definition OP_CLEARM :: uintptr where "OP_CLEARM = 23"
definition OP_ADD :: uintptr where "OP_ADD = 24"
definition OP_SUB :: uintptr where "OP_SUB = 25"
definition OP_MUL :: uintptr where "OP_MUL = 26"
definition OP_DIV :: uintptr where "OP_DIV = 27"
definition OP_SHL :: uintptr where "OP_SHL = 28"
definition OP_SHR :: uintptr where "OP_SHR = 29"
definition OP_SETMP :: uintptr where "OP_SETMP = 30"
definition OP_RAND :: uintptr where "OP_RAND = 31"

named_theorems op_defs \<open>the numeric values of the opcodes\<close>

lemmas opcode_values [op_defs] =
  OP_STOP_def OP_FWD_def OP_BACK_def OP_INC_def OP_DEC_def OP_READG_def OP_WRITEG_def
  OP_READO_def OP_WRITEO_def OP_LOOP_def OP_REP_def OP_TURN_def OP_XCHG_def OP_KILL_def
  OP_SHARE_def OP_ZERO_def OP_SETP_def OP_NEXTB_def OP_PREVB_def OP_NEXTM_def OP_PREVM_def
  OP_READM_def OP_WRITEM_def OP_CLEARM_def OP_ADD_def OP_SUB_def OP_MUL_def OP_DIV_def
  OP_SHL_def OP_SHR_def OP_SETMP_def OP_RAND_def

named_theorems param_defs \<open>the values of the tunable parameters and masks\<close>

lemmas parameter_values [param_defs] =
  POND_SIZE_X_def POND_SIZE_Y_def POND_DEPTH_def MUTATION_RATE_def INFLOW_RATE_BASE_def
  INFLOW_RATE_VARIATION_def CELL_ENERGY_CAP_def FAILED_KILL_PENALTY_def
  REPRODUCTION_COST_def EXEC_START_INST_def COMBINE_SENSE_def NUM_INST_def INST_MASK_def
  REG_BITS_def REG_MASK_def LOGO_MASK_def FACING_MASK_def RAM_SIZE_def RAM_MASK_def
  MEM_MASK_def

section \<open>Arrays and counted loops\<close>

text \<open>\<open>rd n a i\<close> is the C expression \<^verbatim>\<open>a[i]\<close> for an array of \<open>n\<close> elements,
  \<open>wr n a i v\<close> the assignment \<^verbatim>\<open>a[i] = v\<close>.\<close>

definition rd :: "nat \<Rightarrow> (nat \<Rightarrow> 'a) \<Rightarrow> nat \<Rightarrow> 'a option" where
  "rd n a i = (if i < n then Some (a i) else None)"

definition wr :: "nat \<Rightarrow> (nat \<Rightarrow> 'a) \<Rightarrow> nat \<Rightarrow> 'a \<Rightarrow> (nat \<Rightarrow> 'a) option" where
  "wr n a i v = (if i < n then Some (a(i := v)) else None)"

text \<open>A constant table, read at an index.\<close>

definition lookup :: "'a list \<Rightarrow> nat \<Rightarrow> 'a option" where
  "lookup xs i = (if i < length xs then Some (xs ! i) else None)"

text \<open>\<^verbatim>\<open>for (i = i0; i < n; ++i) a = body(i, a);\<close>: the counted loops of the source.
  Their index runs below the size of the array they fill, so they write without a
  check.\<close>

function for_upto :: "nat \<Rightarrow> nat \<Rightarrow> (nat \<Rightarrow> 'a \<Rightarrow> 'a) \<Rightarrow> 'a \<Rightarrow> 'a" where
  "for_upto i n body a = (if i < n then for_upto (Suc i) n body (body i a) else a)"
  by pat_completeness auto
termination
  by (relation "measure (\<lambda>(i, n, body, a). n - i)") auto

declare for_upto.simps [simp del]

section \<open>Geometry\<close>

definition DIR_0 :: uint8 where "DIR_0 = 0"
definition DIR_1 :: uint8 where "DIR_1 = 1"
definition DIR_2 :: uint8 where "DIR_2 = 2"
definition DIR_3 :: uint8 where "DIR_3 = 3"
definition DIR_4 :: uint8 where "DIR_4 = 4"
definition DIR_5 :: uint8 where "DIR_5 = 5"

lemmas dir_defs = DIR_0_def DIR_1_def DIR_2_def DIR_3_def DIR_4_def DIR_5_def

definition dirmap :: "uint8 list" where
  "dirmap = [0, 1, 2, 3, 4, 5,
             0, 1, 2, 3, 3, 4, 5,
             0, 1, 2, 3, 4, 5,
             0, 1, 2, 2, 3, 4, 5,
             0, 1, 2, 3, 4, 5]"

text \<open>The wrap-around macros. The pond sizes are compile-time constants of the
  source; they are arguments here so that the geometry can be stated on any grid.
  The guards keep \<open>x + 1\<close> and \<open>x - 1\<close> from wrapping, so coordinates are naturals.\<close>

definition X_EAST :: "nat \<Rightarrow> nat \<Rightarrow> nat" where
  "X_EAST sx x = (if x < sx - 1 then x + 1 else 0)"
definition X_WEST :: "nat \<Rightarrow> nat \<Rightarrow> nat" where
  "X_WEST sx x = (if x \<noteq> 0 then x - 1 else sx - 1)"
definition X_NONE :: "nat \<Rightarrow> nat \<Rightarrow> nat" where
  "X_NONE sx x = x"
definition Y_SOUTH :: "nat \<Rightarrow> nat \<Rightarrow> nat" where
  "Y_SOUTH sy y = (if y < sy - 1 then y + 1 else 0)"
definition Y_NORTH :: "nat \<Rightarrow> nat \<Rightarrow> nat" where
  "Y_NORTH sy y = (if y \<noteq> 0 then y - 1 else sy - 1)"
definition Y_NONE :: "nat \<Rightarrow> nat \<Rightarrow> nat" where
  "Y_NONE sy y = y"

lemmas wrap_defs = X_EAST_def X_WEST_def X_NONE_def Y_SOUTH_def Y_NORTH_def Y_NONE_def

text \<open>\<^verbatim>\<open>&pond[a][b]\<close> on a pond of \<open>sx\<close> by \<open>sy\<close> cells: the position, when it is
  inside the pond.\<close>

definition pond_at :: "nat \<Rightarrow> nat \<Rightarrow> nat \<Rightarrow> nat \<Rightarrow> (nat \<times> nat) option" where
  "pond_at sx sy a b = (if a < sx \<and> b < sy then Some (a, b) else None)"

text \<open>\<^verbatim>\<open>getNeighbor\<close> for \<^verbatim>\<open>DIRECTIONS == 6\<close>. It returns the position of the cell
  the C function returns a pointer to.\<close>

definition getNeighbor :: "nat \<Rightarrow> nat \<Rightarrow> nat \<Rightarrow> nat \<Rightarrow> uintptr \<Rightarrow> (nat \<times> nat) option" where
  "getNeighbor sx sy x y dir = do {
     d \<leftarrow> lookup dirmap (unat dir);
     if odd y then
       (if d = DIR_0 then pond_at sx sy (X_EAST sx x) (Y_NORTH sy y)
        else if d = DIR_1 then pond_at sx sy (X_EAST sx x) (Y_NONE sy y)
        else if d = DIR_2 then pond_at sx sy (X_EAST sx x) (Y_SOUTH sy y)
        else if d = DIR_3 then pond_at sx sy (X_NONE sx x) (Y_SOUTH sy y)
        else if d = DIR_4 then pond_at sx sy (X_WEST sx x) (Y_NONE sy y)
        else if d = DIR_5 then pond_at sx sy (X_NONE sx x) (Y_NORTH sy y)
        else pond_at sx sy (X_NONE sx x) (Y_NONE sy y))
     else
       (if d = DIR_0 then pond_at sx sy (X_NONE sx x) (Y_NORTH sy y)
        else if d = DIR_1 then pond_at sx sy (X_EAST sx x) (Y_NONE sy y)
        else if d = DIR_2 then pond_at sx sy (X_NONE sx x) (Y_SOUTH sy y)
        else if d = DIR_3 then pond_at sx sy (X_WEST sx x) (Y_SOUTH sy y)
        else if d = DIR_4 then pond_at sx sy (X_WEST sx x) (Y_NONE sy y)
        else if d = DIR_5 then pond_at sx sy (X_WEST sx x) (Y_NORTH sy y)
        else pond_at sx sy (X_NONE sx x) (Y_NONE sy y))
   }"

section \<open>The Mersenne Twister\<close>

definition N_mt :: nat where "N_mt = 624"
definition M_mt :: nat where "M_mt = 397"
definition MATRIX_A :: uint32 where "MATRIX_A = 0x9908b0df"
definition UPPER_MASK :: "64 word" where "UPPER_MASK = 0x80000000"
definition LOWER_MASK :: "64 word" where "LOWER_MASK = 0x7fffffff"

text \<open>\<^verbatim>\<open>static unsigned long mt[N]; static int mti\<close>. The index \<open>mti\<close> is never
  negative. The generator's array indices are loop counters below \<open>N\<close> and
  \<open>mti\<close>, which the guard \<^verbatim>\<open>mti >= N\<close> resets, so its accesses carry no check.\<close>

record mt_state =
  mt :: "nat \<Rightarrow> 64 word"
  mti :: nat

definition mag01 :: "uint32 list" where
  "mag01 = [0, MATRIX_A]"

text \<open>One assignment of the regeneration loops:
  \<^verbatim>\<open>y = (mt[kk]&UPPER_MASK)|(mt[nxt]&LOWER_MASK); mt[kk] = mt[src] ^ (y >> 1) ^ mag01[y & 1];\<close>\<close>

definition twist :: "nat \<Rightarrow> nat \<Rightarrow> nat \<Rightarrow> (nat \<Rightarrow> 64 word) \<Rightarrow> (nat \<Rightarrow> 64 word)" where
  "twist kk nxt src m =
     (let y :: uint32 = ucast ((m kk AND UPPER_MASK) OR (m nxt AND LOWER_MASK))
      in m(kk := m src XOR ucast (drop_bit 1 y) XOR ucast (mag01 ! unat (y AND 1))))"

definition regenerate :: "(nat \<Rightarrow> 64 word) \<Rightarrow> (nat \<Rightarrow> 64 word)" where
  "regenerate m =
     (let m1 = for_upto 0 (N_mt - M_mt) (\<lambda>kk. twist kk (kk + 1) (kk + M_mt)) m;
          m2 = for_upto (N_mt - M_mt) (N_mt - 1) (\<lambda>kk. twist kk (kk + 1) (kk + M_mt - N_mt)) m1
      in twist (N_mt - 1) 0 (M_mt - 1) m2)"

definition genrand_int32 :: "mt_state \<Rightarrow> uint32 \<times> mt_state" where
  "genrand_int32 g =
     (let g1 = (if mti g \<ge> N_mt then \<lparr>mt = regenerate (mt g), mti = 0\<rparr> else g);
          y0 :: uint32 = ucast (mt g1 (mti g1));
          g2 = g1\<lparr>mti := mti g1 + 1\<rparr>;
          y1 = y0 XOR drop_bit 11 y0;
          y2 = y1 XOR (push_bit 7 y1 AND 0x9d2c5680);
          y3 = y2 XOR (push_bit 15 y2 AND 0xefc60000);
          y4 = y3 XOR drop_bit 18 y3
      in (y4, g2))"

text \<open>\<^verbatim>\<open>getRandom\<close> on the 64-bit target: two generator outputs, the first in the
  high half (the operands of \<^verbatim>\<open>^\<close> taken left to right).\<close>

definition getRandom :: "mt_state \<Rightarrow> uintptr \<times> mt_state" where
  "getRandom g =
     (let (hi, g1) = genrand_int32 g;
          (lo, g2) = genrand_int32 g1
      in (push_bit 32 (ucast hi) XOR ucast lo, g2))"

section \<open>Cells, counters and the machine state\<close>

definition BITS_IN_FIVEBIT_WORD :: "uintptr list" where
  "BITS_IN_FIVEBIT_WORD =
     [0,1,1,2,1,2,2,3,1,2,2,3,2,3,3,4,1,2,2,3,2,3,3,4,2,3,3,4,3,4,4,5]"

record Cell =
  ID :: uint64
  parentID :: uint64
  lineage :: uint64
  generation :: uintptr
  energy :: uintptr
  logo :: uintptr
  facing :: uintptr
  genome :: "nat \<Rightarrow> uint8"
  ram :: "nat \<Rightarrow> uint8"

text \<open>The execution counts are \<^verbatim>\<open>double\<close>s that only ever grow by 1.0; they are
  counted in naturals here.\<close>

record PerReportStatCounters =
  instructionExecutions :: "nat \<Rightarrow> nat"
  cellExecutions :: nat
  viableCellsReplaced :: uintptr
  viableCellsKilled :: uintptr
  viableCellShares :: uintptr
  memSpecialReads :: uintptr
  memPrivateReads :: uintptr
  memOutputReads :: uintptr
  memInputReads :: uintptr
  memSpecialWrites :: uintptr
  memPrivateWrites :: uintptr
  memOutputWrites :: uintptr
  memInputWrites :: uintptr

text \<open>A pointer into the pond is the position of the cell it points to.\<close>

type_synonym cellptr = "nat \<times> nat"

text \<open>The globals (\<open>pond\<close>, \<open>statCounters\<close>, the generator) and the locals of
  \<^verbatim>\<open>main\<close> that the virtual machine uses.\<close>

record state =
  pond :: "cellptr \<Rightarrow> Cell"
  statCounters :: PerReportStatCounters
  rng :: mt_state
  cellIdCounter :: uint64
  outputBuf :: "nat \<Rightarrow> uint8"
  instPtr :: uintptr
  ptr_ioPtr :: uintptr
  ptr_mem :: uintptr
  reg :: uintptr
  loopStack :: "nat \<Rightarrow> uintptr"
  loopStackPtr :: uintptr
  falseLoopDepth :: uintptr
  stop :: int

text \<open>\<open>cell_upd p f s\<close> is an assignment through the pointer \<open>p\<close>; \<open>stat f s\<close> an
  assignment to a field of \<open>statCounters\<close>; \<open>incr\<close> is \<^verbatim>\<open>++\<close>.\<close>

definition cell_upd :: "cellptr \<Rightarrow> (Cell \<Rightarrow> Cell) \<Rightarrow> state \<Rightarrow> state" where
  "cell_upd p f s = s\<lparr>pond := (pond s)(p := f (pond s p))\<rparr>"

definition stat :: "(PerReportStatCounters \<Rightarrow> PerReportStatCounters) \<Rightarrow> state \<Rightarrow> state" where
  "stat f s = s\<lparr>statCounters := f (statCounters s)\<rparr>"

definition incr :: "'a::len word \<Rightarrow> 'a word" where
  "incr n = n + 1"

text \<open>The random word of \<^verbatim>\<open>getRandom()\<close>, drawn from the generator of the state.\<close>

definition draw :: "state \<Rightarrow> uintptr \<times> state" where
  "draw s = (let (r, g) = getRandom (rng s) in (r, s\<lparr>rng := g\<rparr>))"

section \<open>The access oracle\<close>

text \<open>\<^verbatim>\<open>accessAllowed(c2, c1guess, sense)\<close>. The call of \<^verbatim>\<open>getRandom\<close> is the left
  operand of \<^verbatim>\<open>||\<close>, so it is made whatever \<^verbatim>\<open>c2->parentID\<close> is.\<close>

definition accessAllowed :: "cellptr \<Rightarrow> uintptr \<Rightarrow> int \<Rightarrow> state \<Rightarrow> (bool \<times> state) option" where
  "accessAllowed c2 c1guess sense s =
     (if sense \<noteq> 0 then
        (let (r, s1) = draw s in do {
           b \<leftarrow> lookup BITS_IN_FIVEBIT_WORD (unat ((logo (pond s1 c2) XOR c1guess) AND 0x1f));
           Some ((r AND 0xf) \<ge> b \<or> parentID (pond s1 c2) = 0, s1)
         })
      else
        (let (r, s1) = draw s in do {
           b \<leftarrow> lookup BITS_IN_FIVEBIT_WORD (unat ((logo (pond s1 c2) XOR c1guess) AND 0x1f));
           Some ((r AND 0xf) \<le> b \<or> parentID (pond s1 c2) = 0, s1)
         }))"

section \<open>The memory window\<close>

definition read_mem :: "cellptr \<Rightarrow> nat \<Rightarrow> nat \<Rightarrow> uintptr \<Rightarrow> state \<Rightarrow> (uint8 \<times> state) option" where
  "read_mem c x y addr s =
     (if addr = 0x00 then
        Some (ucast (logo (pond s c)), stat (memSpecialReads_update incr) s)
      else if addr = 0x01 then
        Some (ucast (facing (pond s c)), stat (memSpecialReads_update incr) s)
      else if addr = 0x02 then
        (let s1 = stat (memSpecialReads_update incr) s in
         if energy (pond s1 c) = 0 then Some (0, s1)
         else if energy (pond s1 c) > 126975 then Some (31, s1)
         else Some (ucast (1 + drop_bit 12 (energy (pond s1 c))), s1))
      else if addr = 0x03 then Some (ucast (lineage (pond s c) AND REG_MASK), s)
      else if addr = 0x04 then Some (ucast (ID (pond s c) AND REG_MASK), s)
      else if addr = 0x05 then Some (ucast (parentID (pond s c) AND REG_MASK), s)
      else if addr = 0x06 then
        Some (ucast (drop_bit REG_BITS (generation (pond s c)) AND REG_MASK), s)
      else if addr = 0x07 then Some (ucast (generation (pond s c) AND REG_MASK), s)
      else if 0x08 \<le> addr \<and> addr \<le> 0x0f then
        (let s1 = stat (memPrivateReads_update incr) s in do {
           v \<leftarrow> rd RAM_SIZE (ram (pond s1 c)) (unat (addr AND 0x7));
           Some (v, s1)
         })
      else if 0x10 \<le> addr \<and> addr \<le> 0x17 then
        (let s1 = stat (memOutputReads_update incr) s in do {
           v \<leftarrow> rd RAM_SIZE (ram (pond s1 c)) (8 + unat (addr AND 0x7));
           Some (v, s1)
         })
      else if 0x18 \<le> addr \<and> addr \<le> 0x1f then
        (let s1 = stat (memInputReads_update incr) s in do {
           tmpptr \<leftarrow> getNeighbor POND_SIZE_X POND_SIZE_Y x y (facing (pond s1 c));
           v \<leftarrow> rd RAM_SIZE (ram (pond s1 tmpptr)) (8 + unat (addr AND 0x7));
           Some (v, s1)
         })
      else Some (0, s))"

definition write_mem :: "cellptr \<Rightarrow> nat \<Rightarrow> nat \<Rightarrow> uintptr \<Rightarrow> uintptr \<Rightarrow> state \<Rightarrow> state option" where
  "write_mem c x y addr val s =
     (if addr = 0x00 then
        Some (cell_upd c (\<lambda>k. k\<lparr>logo := val AND LOGO_MASK\<rparr>) (stat (memSpecialWrites_update incr) s))
      else if addr = 0x01 then
        Some (cell_upd c (\<lambda>k. k\<lparr>facing := val AND FACING_MASK\<rparr>) (stat (memSpecialWrites_update incr) s))
      else if 0x02 \<le> addr \<and> addr \<le> 0x07 then
        Some (stat (memSpecialWrites_update incr) s)
      else if 0x08 \<le> addr \<and> addr \<le> 0x0f then
        (let s1 = stat (memPrivateWrites_update incr) s in do {
           r \<leftarrow> wr RAM_SIZE (ram (pond s1 c)) (unat (addr AND 0x7)) (ucast (val AND REG_MASK));
           Some (cell_upd c (\<lambda>k. k\<lparr>ram := r\<rparr>) s1)
         })
      else if 0x10 \<le> addr \<and> addr \<le> 0x17 then
        (let s1 = stat (memOutputWrites_update incr) s in do {
           r \<leftarrow> wr RAM_SIZE (ram (pond s1 c)) (8 + unat (addr AND 0x7)) (ucast (val AND REG_MASK));
           Some (cell_upd c (\<lambda>k. k\<lparr>ram := r\<rparr>) s1)
         })
      else if 0x18 \<le> addr \<and> addr \<le> 0x1f then
        (let s1 = stat (memInputWrites_update incr) s in do {
           tmpptr \<leftarrow> getNeighbor POND_SIZE_X POND_SIZE_Y x y (facing (pond s1 c));
           (ok, s2) \<leftarrow> accessAllowed tmpptr (logo (pond s1 c)) 1 s1;
           if ok then do {
             r \<leftarrow> wr RAM_SIZE (ram (pond s2 tmpptr)) (8 + unat (addr AND 0x7)) (ucast (val AND REG_MASK));
             Some (cell_upd tmpptr (\<lambda>k. k\<lparr>ram := r\<rparr>) s2)
           } else Some s2
         })
      else Some s)"

section \<open>The virtual machine\<close>

text \<open>The \<^verbatim>\<open>switch(inst)\<close> of the core loop, for the cell at \<open>(x, y)\<close>. The state is
  the one after the energy debit. The Boolean of the result tells whether the
  \<^verbatim>\<open>continue\<close> of \<open>REP\<close> was taken, which skips the advance of the instruction
  pointer.\<close>

definition dispatch :: "nat \<Rightarrow> nat \<Rightarrow> uintptr \<Rightarrow> state \<Rightarrow> (bool \<times> state) option" where
  "dispatch x y inst s =
     (let pptr = (x, y) in
      if inst = OP_SETP then Some (False, s\<lparr>ptr_ioPtr := reg s\<rparr>)
      else if inst = OP_NEXTB then Some (False, s\<lparr>ptr_mem := (ptr_mem s + 8) AND MEM_MASK\<rparr>)
      else if inst = OP_PREVB then Some (False, s\<lparr>ptr_mem := (ptr_mem s - 8) AND MEM_MASK\<rparr>)
      else if inst = OP_NEXTM then Some (False, s\<lparr>ptr_mem := (ptr_mem s + 1) AND MEM_MASK\<rparr>)
      else if inst = OP_PREVM then Some (False, s\<lparr>ptr_mem := (ptr_mem s - 1) AND MEM_MASK\<rparr>)
      else if inst = OP_READM then do {
        (v, s1) \<leftarrow> read_mem pptr x y (ptr_mem s) s;
        Some (False, s1\<lparr>reg := ucast v\<rparr>)
      }
      else if inst = OP_WRITEM then do {
        s1 \<leftarrow> write_mem pptr x y (ptr_mem s) (reg s) s;
        Some (False, s1)
      }
      else if inst = OP_CLEARM then
        Some (False, for_upto 0 RAM_SIZE
                       (\<lambda>i. cell_upd pptr (\<lambda>k. k\<lparr>ram := (ram k)(i := 0)\<rparr>)) s)
      else if inst = OP_ADD then do {
        (v, s1) \<leftarrow> read_mem pptr x y (ptr_mem s) s;
        Some (False, s1\<lparr>reg := (reg s1 + ucast v) AND REG_MASK\<rparr>)
      }
      else if inst = OP_SUB then do {
        (v, s1) \<leftarrow> read_mem pptr x y (ptr_mem s) s;
        Some (False, s1\<lparr>reg := (reg s1 - ucast v) AND REG_MASK\<rparr>)
      }
      else if inst = OP_MUL then do {
        (v, s1) \<leftarrow> read_mem pptr x y (ptr_mem s) s;
        Some (False, s1\<lparr>reg := (reg s1 * ucast v) AND REG_MASK\<rparr>)
      }
      else if inst = OP_DIV then do {
        (tmp, s1) \<leftarrow> read_mem pptr x y (ptr_mem s) s;
        if tmp \<noteq> 0 then do {
          (d, s2) \<leftarrow> read_mem pptr x y (ptr_mem s1) s1;
          if d = 0 then None
          else Some (False, s2\<lparr>reg := (reg s2 div ucast d) AND REG_MASK\<rparr>)
        }
        else Some (False, s1\<lparr>reg := 0\<rparr>)
      }
      else if inst = OP_SHL then Some (False, s\<lparr>reg := push_bit 1 (reg s) AND REG_MASK\<rparr>)
      else if inst = OP_SHR then Some (False, s\<lparr>reg := drop_bit 1 (reg s) AND REG_MASK\<rparr>)
      else if inst = OP_SETMP then Some (False, s\<lparr>ptr_mem := reg s AND MEM_MASK\<rparr>)
      else if inst = OP_RAND then
        (let (r, s1) = draw s in Some (False, s1\<lparr>reg := r AND REG_MASK\<rparr>))
      else if inst = OP_ZERO then Some (False, s\<lparr>reg := 0\<rparr>)
      else if inst = OP_FWD then
        (let p = ptr_ioPtr s + 1
         in Some (False, s\<lparr>ptr_ioPtr := (if unat p \<ge> POND_DEPTH then 0 else p)\<rparr>))
      else if inst = OP_BACK then
        (if ptr_ioPtr s \<noteq> 0 then Some (False, s\<lparr>ptr_ioPtr := ptr_ioPtr s - 1\<rparr>)
         else Some (False, s\<lparr>ptr_ioPtr := of_nat (POND_DEPTH - 1)\<rparr>))
      else if inst = OP_INC then Some (False, s\<lparr>reg := (reg s + 1) AND REG_MASK\<rparr>)
      else if inst = OP_DEC then Some (False, s\<lparr>reg := (reg s - 1) AND REG_MASK\<rparr>)
      else if inst = OP_READG then do {
        v \<leftarrow> rd POND_DEPTH (genome (pond s pptr)) (unat (ptr_ioPtr s));
        Some (False, s\<lparr>reg := ucast v\<rparr>)
      }
      else if inst = OP_WRITEG then do {
        g \<leftarrow> wr POND_DEPTH (genome (pond s pptr)) (unat (ptr_ioPtr s)) (ucast (reg s AND INST_MASK));
        Some (False, cell_upd pptr (\<lambda>k. k\<lparr>genome := g\<rparr>) s)
      }
      else if inst = OP_READO then do {
        v \<leftarrow> rd POND_DEPTH (outputBuf s) (unat (ptr_ioPtr s));
        Some (False, s\<lparr>reg := ucast v\<rparr>)
      }
      else if inst = OP_WRITEO then do {
        b \<leftarrow> wr POND_DEPTH (outputBuf s) (unat (ptr_ioPtr s)) (ucast (reg s AND INST_MASK));
        Some (False, s\<lparr>outputBuf := b\<rparr>)
      }
      else if inst = OP_LOOP then
        (if reg s \<noteq> 0 then
           (if unat (loopStackPtr s) \<ge> POND_DEPTH then Some (False, s\<lparr>stop := 1\<rparr>)
            else do {
              l \<leftarrow> wr POND_DEPTH (loopStack s) (unat (loopStackPtr s)) (instPtr s);
              Some (False, s\<lparr>loopStack := l, loopStackPtr := loopStackPtr s + 1\<rparr>)
            })
         else Some (False, s\<lparr>falseLoopDepth := 1\<rparr>))
      else if inst = OP_REP then
        (if loopStackPtr s \<noteq> 0 then
           (let s1 = s\<lparr>loopStackPtr := loopStackPtr s - 1\<rparr> in
            if reg s1 \<noteq> 0 then do {
              v \<leftarrow> rd POND_DEPTH (loopStack s1) (unat (loopStackPtr s1));
              Some (True, s1\<lparr>instPtr := v\<rparr>)
            }
            else Some (False, s1))
         else Some (False, s))
      else if inst = OP_TURN then
        (if generation (pond s pptr) > 2 then do {
           tmpptr \<leftarrow> getNeighbor POND_SIZE_X POND_SIZE_Y x y (facing (pond s pptr));
           if generation (pond s tmpptr) > 2 then do {
             (ok, s1) \<leftarrow> accessAllowed tmpptr (reg s) COMBINE_SENSE s;
             if ok then
               (let (r, s2) = draw s1 in do {
                  v \<leftarrow> rd POND_DEPTH (genome (pond s2 (if r AND 0x8 \<noteq> 0 then pptr else tmpptr)))
                         (unat (ptr_ioPtr s2));
                  Some (False, s2\<lparr>reg := ucast v\<rparr>)
                })
             else do {
               v \<leftarrow> rd POND_DEPTH (genome (pond s1 pptr)) (unat (ptr_ioPtr s1));
               Some (False, s1\<lparr>reg := ucast v\<rparr>)
             }
           }
           else do {
             v \<leftarrow> rd POND_DEPTH (genome (pond s pptr)) (unat (ptr_ioPtr s));
             Some (False, s\<lparr>reg := ucast v\<rparr>)
           }
         }
         else do {
           v \<leftarrow> rd POND_DEPTH (genome (pond s pptr)) (unat (ptr_ioPtr s));
           Some (False, s\<lparr>reg := ucast v\<rparr>)
         })
      else if inst = OP_XCHG then
        (let p = instPtr s + 1;
             s1 = s\<lparr>instPtr := (if unat p \<ge> POND_DEPTH then EXEC_START_INST else p)\<rparr>;
             tmp = reg s1
         in do {
           v \<leftarrow> rd POND_DEPTH (genome (pond s1 pptr)) (unat (instPtr s1));
           g \<leftarrow> wr POND_DEPTH (genome (pond s1 pptr)) (unat (instPtr s1)) (ucast (tmp AND INST_MASK));
           Some (False, cell_upd pptr (\<lambda>k. k\<lparr>genome := g\<rparr>) (s1\<lparr>reg := ucast v\<rparr>))
         })
      else if inst = OP_KILL then do {
        tmpptr \<leftarrow> getNeighbor POND_SIZE_X POND_SIZE_Y x y (facing (pond s pptr));
        (ok, s1) \<leftarrow> accessAllowed tmpptr (reg s) 0 s;
        if ok then
          (let s2 = (if generation (pond s1 tmpptr) > 2
                     then stat (viableCellsKilled_update incr) s1 else s1);
               s3 = for_upto 0 POND_DEPTH
                      (\<lambda>i. cell_upd tmpptr (\<lambda>k. k\<lparr>genome := (genome k)(i := ucast OP_STOP)\<rparr>)) s2;
               s4 = cell_upd tmpptr (\<lambda>k. k\<lparr>ID := cellIdCounter s3\<rparr>) s3;
               s5 = cell_upd tmpptr (\<lambda>k. k\<lparr>parentID := 0\<rparr>) s4;
               s6 = cell_upd tmpptr (\<lambda>k. k\<lparr>lineage := cellIdCounter s5\<rparr>) s5;
               s7 = cell_upd tmpptr (\<lambda>k. k\<lparr>generation := 0, logo := 0, facing := 0\<rparr>) s6
           in Some (False, s7\<lparr>cellIdCounter := cellIdCounter s7 + 1\<rparr>))
        else if generation (pond s1 tmpptr) > 2 then
          (let tmp = energy (pond s1 pptr) div FAILED_KILL_PENALTY
           in if energy (pond s1 pptr) > tmp
              then Some (False, cell_upd pptr (\<lambda>k. k\<lparr>energy := energy k - tmp\<rparr>) s1)
              else Some (False, cell_upd pptr (\<lambda>k. k\<lparr>energy := 0\<rparr>) s1))
        else Some (False, s1)
      }
      else if inst = OP_SHARE then do {
        tmpptr \<leftarrow> getNeighbor POND_SIZE_X POND_SIZE_Y x y (facing (pond s pptr));
        (ok, s1) \<leftarrow> accessAllowed tmpptr (reg s) 1 s;
        if ok then
          (let s2 = (if generation (pond s1 tmpptr) > 2
                     then stat (viableCellShares_update incr) s1 else s1);
               tmp = energy (pond s2 pptr) + energy (pond s2 tmpptr);
               s3 = cell_upd tmpptr (\<lambda>k. k\<lparr>energy := tmp div 2\<rparr>) s2;
               s4 = cell_upd pptr (\<lambda>k. k\<lparr>energy := tmp - energy (pond s3 tmpptr)\<rparr>) s3
           in Some (False, s4))
        else Some (False, s1)
      }
      else if inst = OP_STOP then Some (False, s\<lparr>stop := 1\<rparr>)
      else Some (False, s))"

text \<open>\<open>Execute the instruction\<close>: in a false loop only \<open>LOOP\<close> and \<open>REP\<close> are
  looked at; otherwise the instruction is counted and dispatched.\<close>

definition execute :: "nat \<Rightarrow> nat \<Rightarrow> uintptr \<Rightarrow> state \<Rightarrow> (bool \<times> state) option" where
  "execute x y inst s =
     (if falseLoopDepth s \<noteq> 0 then
        (if inst = 0x9 then Some (False, s\<lparr>falseLoopDepth := falseLoopDepth s + 1\<rparr>)
         else if inst = 0xa then Some (False, s\<lparr>falseLoopDepth := falseLoopDepth s - 1\<rparr>)
         else Some (False, s))
      else do {
        n \<leftarrow> rd NUM_INST (instructionExecutions (statCounters s)) (unat inst);
        e \<leftarrow> wr NUM_INST (instructionExecutions (statCounters s)) (unat inst) (n + 1);
        dispatch x y inst (stat (instructionExecutions_update (\<lambda>_. e)) s)
      })"

text \<open>\<^verbatim>\<open>if (++instPtr >= POND_DEPTH) instPtr = EXEC_START_INST;\<close>\<close>

definition advance :: "state \<Rightarrow> state" where
  "advance s =
     (let p = instPtr s + 1
      in s\<lparr>instPtr := (if unat p \<ge> POND_DEPTH then EXEC_START_INST else p)\<rparr>)"

text \<open>The mutation injection at the head of the loop body: it may replace the
  fetched instruction, the register, the memory pointer or one byte of RAM.\<close>

definition mutation :: "nat \<Rightarrow> nat \<Rightarrow> uintptr \<Rightarrow> state \<Rightarrow> (uintptr \<times> state) option" where
  "mutation x y inst s =
     (let (r, s1) = draw s in
      if (r AND 0xffffffff) < MUTATION_RATE then
        (let (tmp, s2) = draw s1 in
         if tmp AND 0x20000 \<noteq> 0 then
           (if tmp AND 0x10000 \<noteq> 0 then Some (tmp AND INST_MASK, s2)
            else Some (inst, s2\<lparr>reg := tmp AND REG_MASK\<rparr>))
         else
           (if tmp AND 0x10000 \<noteq> 0 then Some (inst, s2\<lparr>ptr_mem := tmp AND MEM_MASK\<rparr>)
            else do {
              m \<leftarrow> wr RAM_SIZE (ram (pond s2 (x, y))) (unat (drop_bit 8 tmp AND RAM_MASK))
                     (ucast (tmp AND REG_MASK));
              Some (inst, cell_upd (x, y) (\<lambda>k. k\<lparr>ram := m\<rparr>) s2)
            }))
      else Some (inst, s1))"

text \<open>The end of the loop body, from \<open>Execute the instruction\<close> on: the
  instruction pointer advances unless \<open>REP\<close> took its \<^verbatim>\<open>continue\<close>.\<close>

definition execute_and_advance :: "nat \<Rightarrow> nat \<Rightarrow> uintptr \<Rightarrow> state \<Rightarrow> state option" where
  "execute_and_advance x y inst s = do {
     (cont, s1) \<leftarrow> execute x y inst s;
     Some (if cont then s1 else advance s1)
   }"

text \<open>One iteration of the core execution loop (its guard,
  \<^verbatim>\<open>pptr->energy && !stop\<close>, is checked by the caller): fetch, mutation, the
  debit of one unit of energy, execution.\<close>

definition step :: "nat \<Rightarrow> nat \<Rightarrow> state \<Rightarrow> state option" where
  "step x y s = do {
     v \<leftarrow> rd POND_DEPTH (genome (pond s (x, y))) (unat (instPtr s));
     (inst, s1) \<leftarrow> mutation x y (ucast v) s;
     execute_and_advance x y inst (cell_upd (x, y) (\<lambda>k. k\<lparr>energy := energy k - 1\<rparr>) s1)
   }"

section \<open>Seeding and reproduction\<close>

text \<open>The seeding block of the main loop, run every \<open>INFLOW_FREQUENCY\<close> ticks
  (\<open>CELL_ENERGY_CAP\<close> and \<open>INFLOW_RATE_VARIATION\<close> defined, \<open>TOTAL_ENERGY_CAP\<close> and
  \<open>CLEAR_RAM\<close> not). It returns the seeded position with the new state.\<close>

definition seed :: "state \<Rightarrow> (cellptr \<times> state) option" where
  "seed s =
     (let (rx, s1) = draw s;
          x = unat rx mod POND_SIZE_X;
          (ry, s2) = draw s1;
          y = unat ry mod POND_SIZE_Y
      in do {
        pptr \<leftarrow> pond_at POND_SIZE_X POND_SIZE_Y x y;
        let s3 = cell_upd pptr (\<lambda>k. k\<lparr>ID := cellIdCounter s2\<rparr>) s2;
            s4 = cell_upd pptr (\<lambda>k. k\<lparr>parentID := 0\<rparr>) s3;
            s5 = cell_upd pptr (\<lambda>k. k\<lparr>lineage := cellIdCounter s4\<rparr>) s4;
            s6 = cell_upd pptr (\<lambda>k. k\<lparr>generation := 0, logo := 0, facing := 0\<rparr>) s5;
            s7 = (if energy (pond s6 pptr) < CELL_ENERGY_CAP then
                    (let (re, s') = draw s6
                     in cell_upd pptr
                          (\<lambda>k. k\<lparr>energy := energy k + (INFLOW_RATE_BASE + re mod INFLOW_RATE_VARIATION)\<rparr>) s')
                  else s6);
            s8 = s7\<lparr>instPtr := 0\<rparr>;
            s9 = for_upto 0 POND_DEPTH
                   (\<lambda>i t. let (w, t') = draw t
                          in cell_upd pptr (\<lambda>k. k\<lparr>genome := (genome k)(i := ucast (w AND INST_MASK))\<rparr>) t') s8;
            s10 = for_upto 0 RAM_SIZE
                   (\<lambda>i t. let (w, t') = draw t
                          in cell_upd pptr (\<lambda>k. k\<lparr>ram := (ram k)(i := ucast (w AND REG_MASK))\<rparr>) t') s9
        in Some (pptr, s10\<lparr>cellIdCounter := cellIdCounter s10 + 1\<rparr>)
      })"

text \<open>The block after the core loop, for the cell at \<open>(x, y)\<close> that just ran
  (\<open>DECAY_RAM\<close> is 0, \<open>REPRODUCTION_COST\<close> is positive): the birth of an offspring
  into the faced neighbour. The Boolean tells whether the birth took place.\<close>

definition reproduce :: "nat \<Rightarrow> nat \<Rightarrow> state \<Rightarrow> (bool \<times> state) option" where
  "reproduce x y s =
     (let pptr = (x, y) in
      if energy (pond s pptr) = 0 then Some (False, s)
      else if energy (pond s pptr) \<ge> REPRODUCTION_COST then do {
        b0 \<leftarrow> rd POND_DEPTH (outputBuf s) 0;
        if ucast b0 \<noteq> OP_STOP then do {
          tmpptr \<leftarrow> getNeighbor POND_SIZE_X POND_SIZE_Y x y (facing (pond s pptr));
          if energy (pond s tmpptr) \<noteq> 0 then do {
            (ok, s1) \<leftarrow> accessAllowed tmpptr (reg s) 0 s;
            if ok then
              (let s2 = (if generation (pond s1 tmpptr) > 2
                         then stat (viableCellsReplaced_update incr) s1 else s1);
                   s3 = s2\<lparr>cellIdCounter := cellIdCounter s2 + 1\<rparr>;
                   s4 = cell_upd tmpptr (\<lambda>k. k\<lparr>ID := cellIdCounter s3\<rparr>) s3;
                   s5 = cell_upd tmpptr (\<lambda>k. k\<lparr>parentID := ID (pond s4 pptr)\<rparr>) s4;
                   s6 = cell_upd tmpptr (\<lambda>k. k\<lparr>lineage := lineage (pond s5 pptr)\<rparr>) s5;
                   s7 = cell_upd tmpptr (\<lambda>k. k\<lparr>generation := generation (pond s6 pptr) + 1\<rparr>) s6;
                   s8 = cell_upd tmpptr (\<lambda>k. k\<lparr>logo := 0, facing := 0\<rparr>) s7;
                   s9 = for_upto 0 POND_DEPTH
                          (\<lambda>i t. cell_upd tmpptr (\<lambda>k. k\<lparr>genome := (genome k)(i := outputBuf t i)\<rparr>) t) s8;
                   s10 = for_upto 0 RAM_SIZE
                          (\<lambda>i t. let (w, t') = draw t
                                 in cell_upd tmpptr (\<lambda>k. k\<lparr>ram := (ram k)(i := ucast (w AND REG_MASK))\<rparr>) t') s9
               in Some (True, cell_upd pptr (\<lambda>k. k\<lparr>energy := energy k - REPRODUCTION_COST\<rparr>) s10))
            else Some (False, s1)
          }
          else Some (False, s)
        }
        else Some (False, s)
      }
      else Some (False, s))"

section \<open>Representable machine states\<close>

text \<open>The states the instruction set is closed on, for the cell at \<open>(x, y)\<close>: the
  position lies in the pond, \<open>reg\<close> is an 8-bit value, the I/O pointer is below the
  genome depth, the memory pointer is a 5-bit value, the loop stack pointer is at
  most the depth, and the \<open>facing\<close> of the cell is a 5-bit value, as the data model
  stores it.\<close>

definition vm_ok :: "nat \<Rightarrow> nat \<Rightarrow> state \<Rightarrow> bool" where
  "vm_ok x y s \<longleftrightarrow>
     x < POND_SIZE_X \<and> y < POND_SIZE_Y \<and> reg s < 256 \<and> unat (ptr_ioPtr s) < POND_DEPTH \<and>
     ptr_mem s < 32 \<and> unat (loopStackPtr s) \<le> POND_DEPTH \<and> facing (pond s (x, y)) < 32"

section \<open>Example states\<close>

text \<open>A cell and a machine state as the initialisation of \<^verbatim>\<open>main\<close> leaves them,
  with a generator state whose next random word is \<open>0x400091\<close>.\<close>

definition blank_cell :: Cell where
  "blank_cell = \<lparr>ID = 0, parentID = 0, lineage = 0, generation = 0, energy = 0, logo = 0,
                  facing = 0, genome = (\<lambda>_. ucast OP_STOP), ram = (\<lambda>_. 0)\<rparr>"

definition zero_counters :: PerReportStatCounters where
  "zero_counters = \<lparr>instructionExecutions = (\<lambda>_. 0), cellExecutions = 0,
     viableCellsReplaced = 0, viableCellsKilled = 0, viableCellShares = 0,
     memSpecialReads = 0, memPrivateReads = 0, memOutputReads = 0, memInputReads = 0,
     memSpecialWrites = 0, memPrivateWrites = 0, memOutputWrites = 0, memInputWrites = 0\<rparr>"

definition blank_state :: state where
  "blank_state = \<lparr>pond = (\<lambda>_. blank_cell), statCounters = zero_counters,
     rng = \<lparr>mt = (\<lambda>_. 0)(3 := 1), mti = 2\<rparr>, cellIdCounter = 0,
     outputBuf = (\<lambda>_. ucast OP_STOP), instPtr = EXEC_START_INST, ptr_ioPtr = 0, ptr_mem = 0,
     reg = 0, loopStack = (\<lambda>_. 0), loopStackPtr = 0, falseLoopDepth = 0, stop = 0\<rparr>"

text \<open>The cell at (2, 0) faces east, towards (3, 0).\<close>

definition two_cells :: "Cell \<Rightarrow> Cell \<Rightarrow> state" where
  "two_cells a b = blank_state\<lparr>pond := (\<lambda>_. blank_cell)((2, 0) := a\<lparr>facing := 1\<rparr>, (3, 0) := b)\<rparr>"

text \<open>A state in which the cell at (2, 0), with energy 100 and a non-\<open>STOP\<close> first
  output codon, is about to give birth into the cell at (3, 0), which has energy
  and no parent. One identifier (0) has been handed out, so the counter is 1.\<close>

definition birth_state :: state where
  "birth_state = (two_cells (blank_cell\<lparr>energy := 100\<rparr>) (blank_cell\<lparr>energy := 5\<rparr>))
                   \<lparr>outputBuf := (\<lambda>_. 0)(0 := 3), cellIdCounter := 1\<rparr>"

text \<open>A state in the middle of a false loop: the cell at (2, 0) has energy 10 and
  a genome of \<open>INC\<close>, the skip depth is 1 and the register is 0. The generator is
  about to give the random words \<open>0\<close> (which is below \<open>MUTATION_RATE\<close>) and
  \<open>0x0b0616ab\<close> (bit 17 set, bit 16 clear, low byte 171).\<close>

definition mutating_skip :: state where
  "mutating_skip = (two_cells (blank_cell\<lparr>energy := 10, genome := (\<lambda>_. ucast OP_INC)\<rparr>) blank_cell)
                     \<lparr>falseLoopDepth := 1, rng := \<lparr>mt = (\<lambda>_. 0)(3 := 131114), mti = 0\<rparr>\<rparr>"

section \<open>Properties\<close>

subsection \<open>Geometry\<close>

lemma lookup_dirmap_5: "lookup dirmap 5 = Some 5"
  by (simp add: lookup_def dirmap_def)

text \<open>
  C3 (as the code has it). On a 4 by 4 pond with six neighbours, direction code
  \<open>DIR_5\<close> takes the cell at x = 0, y = 0 (an even row) to (3, 3): west and north,
  both wrapped. It takes the cell at x = 0, y = 1 (an odd row) to (0, 0): on odd
  rows \<open>DIR_5\<close> keeps the column and only moves north.
\<close>

theorem getNeighbor_dir5_4x4:
  "getNeighbor 4 4 0 0 5 = Some (3, 3) \<and> getNeighbor 4 4 0 1 5 = Some (0, 0)"
  by (simp add: getNeighbor_def lookup_dirmap_5 dir_defs wrap_defs pond_at_def)

text \<open>C3 as stated fails: the neighbour of (0, 1) in direction \<open>DIR_5\<close> is not (3, 0).\<close>

theorem getNeighbor_dir5_odd_row_counterexample:
  "getNeighbor 4 4 0 1 5 \<noteq> Some (3, 0)"
  by (simp add: getNeighbor_def lookup_dirmap_5 dir_defs wrap_defs pond_at_def)

subsection \<open>The generator, the access oracle and the neighbours\<close>

lemma getRandom_blank:
  "getRandom (rng blank_state) = (0x400091, \<lparr>mt = (\<lambda>_. 0)(3 := 1), mti = 4\<rparr>)"
  by (simp add: getRandom_def blank_state_def genrand_int32_def N_mt_def Let_def)

lemma unat_and_1f: "unat ((w :: uintptr) AND 0x1f) < 32"
proof -
  have "(w AND 0x1f) \<le> 0x1f" by (rule word_and_le1)
  then show ?thesis by (simp add: word_le_nat_alt)
qed

lemma lookup_bits: "\<exists>b. lookup BITS_IN_FIVEBIT_WORD (unat ((w :: uintptr) AND 0x1f)) = Some b"
  using unat_and_1f [of w] by (simp add: lookup_def BITS_IN_FIVEBIT_WORD_def)

lemma draw_eq: "draw s = (fst (getRandom (rng s)), s\<lparr>rng := snd (getRandom (rng s))\<rparr>)"
  by (simp add: draw_def case_prod_unfold Let_def)

text \<open>The oracle only draws: whatever it answers, the state it leaves is the
  state with the generator advanced by one \<open>getRandom\<close>.\<close>

lemma accessAllowed_state:
  "accessAllowed c2 g sense s = Some (ok, s1) \<Longrightarrow> s1 = s\<lparr>rng := snd (getRandom (rng s))\<rparr>"
  by (auto simp: accessAllowed_def draw_eq split: if_splits bind_splits)

lemma accessAllowed_total:
  "\<exists>ok. accessAllowed c2 g sense s = Some (ok, s\<lparr>rng := snd (getRandom (rng s))\<rparr>)"
proof -
  obtain b where "lookup BITS_IN_FIVEBIT_WORD (unat ((logo (pond s c2) XOR g) AND 0x1f)) = Some b"
    using lookup_bits by blast
  then show ?thesis by (simp add: accessAllowed_def draw_eq)
qed

lemma accessAllowed_parentless:
  "parentID (pond s c2) = 0 \<Longrightarrow>
   accessAllowed c2 g sense s = Some (True, s\<lparr>rng := snd (getRandom (rng s))\<rparr>)"
proof -
  obtain b where "lookup BITS_IN_FIVEBIT_WORD (unat ((logo (pond s c2) XOR g) AND 0x1f)) = Some b"
    using lookup_bits by blast
  then show "parentID (pond s c2) = 0 \<Longrightarrow> ?thesis" by (simp add: accessAllowed_def draw_eq)
qed

text \<open>With six directions on the 640 by 480 pond, a neighbour is another cell.\<close>

lemma dirmap_range: "i < 32 \<Longrightarrow> dirmap ! i \<in> {0, 1, 2, 3, 4, 5}"
proof -
  assume "i < 32"
  moreover have "length dirmap = 32" by (simp add: dirmap_def)
  ultimately have "dirmap ! i \<in> set dirmap" by (metis nth_mem)
  moreover have "set dirmap = {0, 1, 2, 3, 4, 5}" by (auto simp: dirmap_def)
  ultimately show ?thesis by simp
qed

lemma lookup_dirmap:
  "lookup dirmap i = Some d \<Longrightarrow> d = DIR_0 \<or> d = DIR_1 \<or> d = DIR_2 \<or> d = DIR_3 \<or> d = DIR_4 \<or> d = DIR_5"
proof -
  assume a: "lookup dirmap i = Some d"
  have len: "length dirmap = 32" by (simp add: dirmap_def)
  from a have "i < 32" and "d = dirmap ! i"
    by (simp_all add: lookup_def len split: if_splits)
  with dirmap_range [of i] show ?thesis by (simp add: dir_defs)
qed

lemma lookup_dirmap_total: "d < 32 \<Longrightarrow> \<exists>v. lookup dirmap (unat (d :: uintptr)) = Some v"
proof -
  assume "d < 32"
  then have "unat d < 32" by (simp add: word_less_nat_alt)
  moreover have "length dirmap = 32" by (simp add: dirmap_def)
  ultimately show ?thesis by (simp add: lookup_def)
qed

lemma getNeighbor_not_self:
  assumes "getNeighbor POND_SIZE_X POND_SIZE_Y x y d = Some n"
  shows "n \<noteq> (x, y)"
proof -
  from assms obtain v where l: "lookup dirmap (unat d) = Some v"
    by (auto simp: getNeighbor_def split: bind_splits)
  from lookup_dirmap [OF l] assms show ?thesis
    by (auto simp: getNeighbor_def l pond_at_def wrap_defs dir_defs POND_SIZE_X_def POND_SIZE_Y_def
             split: if_splits)
qed

lemma getNeighbor_total:
  assumes "x < POND_SIZE_X" "y < POND_SIZE_Y" "d < 32"
  shows "\<exists>n. getNeighbor POND_SIZE_X POND_SIZE_Y x y d = Some n"
proof -
  from lookup_dirmap_total [OF assms(3)] obtain v where l: "lookup dirmap (unat d) = Some v"
    by blast
  from lookup_dirmap [OF l] assms(1,2) show ?thesis
    by (auto simp: getNeighbor_def l pond_at_def wrap_defs dir_defs POND_SIZE_X_def POND_SIZE_Y_def)
qed

subsection \<open>The memory window\<close>

lemma compress_energy:
  assumes "unat (e :: uintptr) \<le> 126975"
  shows "unat (ucast (1 + drop_bit 12 e) :: uint8) = 1 + unat e div 2 ^ 12"
proof -
  have d: "unat (drop_bit 12 e) = unat e div 2 ^ 12"
    unfolding unat_drop_bit_eq by (rule drop_bit_eq_div)
  from assms have b: "unat e div 2 ^ 12 \<le> 30" by simp
  have "unat (1 + drop_bit 12 e) = (1 + unat (drop_bit 12 e)) mod 2 ^ 64"
    by (simp add: unat_word_ariths)
  with d b have s: "unat (1 + drop_bit 12 e) = 1 + unat e div 2 ^ 12" by simp
  have "unat (ucast (1 + drop_bit 12 e) :: uint8) = unat (1 + drop_bit 12 e) mod 2 ^ 8"
    by (simp add: unsigned_ucast_eq take_bit_eq_mod)
  with s b show ?thesis by simp
qed

lemma read_mem_2:
  "\<exists>v. read_mem c x y 2 s = Some (v, stat (memSpecialReads_update incr) s) \<and>
        unat v = (if energy (pond s c) = 0 then 0
                  else min 31 (1 + unat (energy (pond s c)) div 2 ^ 12))"
proof -
  let ?e = "energy (pond s c)"
  have pond_stat: "pond (stat (memSpecialReads_update incr) s) = pond s"
    by (simp add: stat_def)
  show ?thesis
  proof (cases "?e = 0")
    case True
    then show ?thesis by (simp add: read_mem_def Let_def pond_stat)
  next
    case nz: False
    show ?thesis
    proof (cases "?e > 126975")
      case True
      then have "126975 < unat ?e" by (simp add: word_less_nat_alt)
      then have "31 \<le> unat ?e div 2 ^ 12" by simp
      then have "min 31 (1 + unat ?e div 2 ^ 12) = 31" by simp
      with nz True show ?thesis by (simp add: read_mem_def Let_def pond_stat)
    next
      case False
      then have le: "unat ?e \<le> 126975" by (simp add: word_less_nat_alt not_less)
      then have "unat ?e div 2 ^ 12 \<le> 30" by simp
      then have m: "min 31 (1 + unat ?e div 2 ^ 12) = 1 + unat ?e div 2 ^ 12" by simp
      from nz False m compress_energy [OF le] show ?thesis
        by (simp add: read_mem_def Let_def pond_stat)
    qed
  qed
qed

lemma dispatch_READM:
  "dispatch x y OP_READM s =
     Option.bind (read_mem (x, y) x y (ptr_mem s) s) (\<lambda>(v, s1). Some (False, s1\<lparr>reg := ucast v\<rparr>))"
  by (simp add: dispatch_def op_defs)

text \<open>
  C8. A \<open>READM\<close> with the memory pointer at address \<open>0x02\<close> succeeds, counts one
  special read and leaves in the register exactly the compressed energy: 0 when
  the energy of the cell is 0, and the smaller of 31 and \<open>1 + (energy >> 12)\<close>
  otherwise, whatever the energy is.
\<close>

theorem READM_energy:
  "dispatch x y OP_READM (s\<lparr>ptr_mem := 2\<rparr>) =
     Some (False, (stat (memSpecialReads_update incr) (s\<lparr>ptr_mem := 2\<rparr>))
       \<lparr>reg := word_of_nat (if energy (pond s (x, y)) = 0 then 0
                             else min 31 (1 + unat (energy (pond s (x, y))) div 2 ^ 12))\<rparr>)"
proof -
  let ?s = "s\<lparr>ptr_mem := 2\<rparr>"
  obtain v where r: "read_mem (x, y) x y 2 ?s = Some (v, stat (memSpecialReads_update incr) ?s)"
    and v: "unat v = (if energy (pond ?s (x, y)) = 0 then 0
                      else min 31 (1 + unat (energy (pond ?s (x, y))) div 2 ^ 12))"
    using read_mem_2 [of "(x, y)" x y ?s] by blast
  have "(ucast v :: uintptr) = word_of_nat (unat v)" by simp
  with v have "(ucast v :: uintptr) = word_of_nat (if energy (pond s (x, y)) = 0 then 0
                      else min 31 (1 + unat (energy (pond s (x, y))) div 2 ^ 12))"
    by simp
  with r show ?thesis by (simp add: dispatch_READM)
qed

text \<open>C8 at an energy of 8192: the register receives \<open>1 + 2 = 3\<close>.\<close>

theorem READM_energy_witness:
  "dispatch 2 0 OP_READM ((two_cells (blank_cell\<lparr>energy := 8192\<rparr>) blank_cell)\<lparr>ptr_mem := 2\<rparr>) =
     Some (False, (stat (memSpecialReads_update incr)
                    ((two_cells (blank_cell\<lparr>energy := 8192\<rparr>) blank_cell)\<lparr>ptr_mem := 2\<rparr>))\<lparr>reg := 3\<rparr>)"
proof -
  have e: "energy (pond (two_cells (blank_cell\<lparr>energy := 8192\<rparr>) blank_cell) (2, 0)) = 8192"
    by (simp add: two_cells_def)
  show ?thesis
    unfolding READM_energy [of 2 0 "two_cells (blank_cell\<lparr>energy := 8192\<rparr>) blank_cell"] e
    by simp
qed

text \<open>
  C2, at the addresses where the code departs from it. A read of one of the
  read-only slots \<open>0x03\<close> to \<open>0x07\<close> returns its projection and leaves the whole
  state as it was: none of the four read counters moves, and in particular
  \<open>memSpecialReads\<close> is not incremented.
\<close>

theorem read_mem_uncounted:
  "read_mem c x y 3 s = Some (ucast (lineage (pond s c) AND REG_MASK), s) \<and>
   read_mem c x y 4 s = Some (ucast (ID (pond s c) AND REG_MASK), s) \<and>
   read_mem c x y 5 s = Some (ucast (parentID (pond s c) AND REG_MASK), s) \<and>
   read_mem c x y 6 s = Some (ucast (drop_bit REG_BITS (generation (pond s c)) AND REG_MASK), s) \<and>
   read_mem c x y 7 s = Some (ucast (generation (pond s c) AND REG_MASK), s)"
  by (simp add: read_mem_def)

text \<open>The sibling paths do count: reads of the slots \<open>0x00\<close> and \<open>0x01\<close>, and
  writes to the read-only slots \<open>0x02\<close> to \<open>0x07\<close>, which are otherwise ignored.\<close>

lemma read_mem_special_counted:
  "read_mem c x y 0 s = Some (ucast (logo (pond s c)), stat (memSpecialReads_update incr) s)"
  "read_mem c x y 1 s = Some (ucast (facing (pond s c)), stat (memSpecialReads_update incr) s)"
  by (simp_all add: read_mem_def)

lemma write_mem_read_only_counted:
  assumes "2 \<le> a" "a \<le> 7"
  shows "write_mem c x y a v s = Some (stat (memSpecialWrites_update incr) s)"
proof -
  from assms(1) have "a \<noteq> 0" "a \<noteq> 1" by (auto simp: word_le_nat_alt)
  with assms show ?thesis by (simp add: write_mem_def)
qed

subsection \<open>State updates and loops\<close>

lemma cell_upd_sel [simp]:
  "pond (cell_upd p f s) = (pond s)(p := f (pond s p))"
  "statCounters (cell_upd p f s) = statCounters s"
  "rng (cell_upd p f s) = rng s"
  "cellIdCounter (cell_upd p f s) = cellIdCounter s"
  "outputBuf (cell_upd p f s) = outputBuf s"
  "instPtr (cell_upd p f s) = instPtr s"
  "ptr_ioPtr (cell_upd p f s) = ptr_ioPtr s"
  "ptr_mem (cell_upd p f s) = ptr_mem s"
  "reg (cell_upd p f s) = reg s"
  "loopStack (cell_upd p f s) = loopStack s"
  "loopStackPtr (cell_upd p f s) = loopStackPtr s"
  "falseLoopDepth (cell_upd p f s) = falseLoopDepth s"
  "stop (cell_upd p f s) = stop s"
  by (simp_all add: cell_upd_def)

lemma stat_sel [simp]:
  "pond (stat f s) = pond s"
  "statCounters (stat f s) = f (statCounters s)"
  "rng (stat f s) = rng s"
  "cellIdCounter (stat f s) = cellIdCounter s"
  "outputBuf (stat f s) = outputBuf s"
  "instPtr (stat f s) = instPtr s"
  "ptr_ioPtr (stat f s) = ptr_ioPtr s"
  "ptr_mem (stat f s) = ptr_mem s"
  "reg (stat f s) = reg s"
  "loopStack (stat f s) = loopStack s"
  "loopStackPtr (stat f s) = loopStackPtr s"
  "falseLoopDepth (stat f s) = falseLoopDepth s"
  "stop (stat f s) = stop s"
  by (simp_all add: stat_def)

lemma cell_upd_cell_upd: "cell_upd p f (cell_upd p g s) = cell_upd p (\<lambda>k. f (g k)) s"
  by (simp add: cell_upd_def)

lemma for_upto_inv:
  assumes "P a" and "\<And>j b. P b \<Longrightarrow> P (body j b)"
  shows "P (for_upto i n body a)"
  using assms
proof (induction i n body a rule: for_upto.induct)
  case (1 i n body a)
  show ?case
  proof (cases "i < n")
    case True
    have "P (body i a)" using 1(2) by (rule 1(3))
    with True 1(1) 1(3) show ?thesis by (simp add: for_upto.simps [of i n])
  next
    case False
    with 1 show ?thesis by (simp add: for_upto.simps [of i n])
  qed
qed

lemma fill_genome:
  "for_upto i n (\<lambda>j. cell_upd p (\<lambda>k. k\<lparr>genome := (genome k)(j := v)\<rparr>)) s =
   cell_upd p (\<lambda>k. k\<lparr>genome := (\<lambda>m. if i \<le> m \<and> m < n then v else genome k m)\<rparr>) s"
proof (induction i n "\<lambda>j. cell_upd p (\<lambda>k. k\<lparr>genome := (genome k)(j := v)\<rparr>)" s rule: for_upto.induct)
  case (1 i n s)
  show ?case
  proof (cases "i < n")
    case True
    have "(\<lambda>k :: Cell. k\<lparr>genome := (genome k)(i := v)\<rparr>
             \<lparr>genome := \<lambda>m. if Suc i \<le> m \<and> m < n then v else genome (k\<lparr>genome := (genome k)(i := v)\<rparr>) m\<rparr>) =
          (\<lambda>k. k\<lparr>genome := \<lambda>m. if i \<le> m \<and> m < n then v else genome k m\<rparr>)"
      using True by (auto simp: fun_eq_iff)
    with True 1 show ?thesis
      by (simp add: for_upto.simps [of i n] cell_upd_cell_upd)
  next
    case False
    then have "\<And>(k :: Cell) m. (if i \<le> m \<and> m < n then v else genome k m) = genome k m"
      by auto
    with False show ?thesis
      by (simp add: for_upto.simps [of i n] cell_upd_def)
  qed
qed

subsection \<open>\<open>KILL\<close> and \<open>SHARE\<close>\<close>

lemma dispatch_KILL:
  "dispatch x y OP_KILL s = do {
        tmpptr \<leftarrow> getNeighbor POND_SIZE_X POND_SIZE_Y x y (facing (pond s (x, y)));
        (ok, s1) \<leftarrow> accessAllowed tmpptr (reg s) 0 s;
        if ok then
          (let s2 = (if generation (pond s1 tmpptr) > 2
                     then stat (viableCellsKilled_update incr) s1 else s1);
               s3 = for_upto 0 POND_DEPTH
                      (\<lambda>i. cell_upd tmpptr (\<lambda>k. k\<lparr>genome := (genome k)(i := ucast OP_STOP)\<rparr>)) s2;
               s4 = cell_upd tmpptr (\<lambda>k. k\<lparr>ID := cellIdCounter s3\<rparr>) s3;
               s5 = cell_upd tmpptr (\<lambda>k. k\<lparr>parentID := 0\<rparr>) s4;
               s6 = cell_upd tmpptr (\<lambda>k. k\<lparr>lineage := cellIdCounter s5\<rparr>) s5;
               s7 = cell_upd tmpptr (\<lambda>k. k\<lparr>generation := 0, logo := 0, facing := 0\<rparr>) s6
           in Some (False, s7\<lparr>cellIdCounter := cellIdCounter s7 + 1\<rparr>))
        else if generation (pond s1 tmpptr) > 2 then
          (let tmp = energy (pond s1 (x, y)) div FAILED_KILL_PENALTY
           in if energy (pond s1 (x, y)) > tmp
              then Some (False, cell_upd (x, y) (\<lambda>k. k\<lparr>energy := energy k - tmp\<rparr>) s1)
              else Some (False, cell_upd (x, y) (\<lambda>k. k\<lparr>energy := 0\<rparr>) s1))
        else Some (False, s1)
      }"
  by (simp add: dispatch_def op_defs Let_def)

lemma dispatch_SHARE:
  "dispatch x y OP_SHARE s = do {
        tmpptr \<leftarrow> getNeighbor POND_SIZE_X POND_SIZE_Y x y (facing (pond s (x, y)));
        (ok, s1) \<leftarrow> accessAllowed tmpptr (reg s) 1 s;
        if ok then
          (let s2 = (if generation (pond s1 tmpptr) > 2
                     then stat (viableCellShares_update incr) s1 else s1);
               tmp = energy (pond s2 (x, y)) + energy (pond s2 tmpptr);
               s3 = cell_upd tmpptr (\<lambda>k. k\<lparr>energy := tmp div 2\<rparr>) s2;
               s4 = cell_upd (x, y) (\<lambda>k. k\<lparr>energy := tmp - energy (pond s3 tmpptr)\<rparr>) s3
           in Some (False, s4))
        else Some (False, s1)
      }"
  by (simp add: dispatch_def op_defs Let_def)

text \<open>
  C4. When \<open>SHARE\<close> is dispatched for the cell at \<open>(x, y)\<close>, faces the neighbour
  \<open>n\<close> and the access test (sense 1, guess \<open>reg\<close>) succeeds, then with \<open>a\<close> and \<open>b\<close>
  the energies of the executor and of the neighbour before the dispatch and
  \<open>pot = a + b\<close>: the neighbour ends with \<open>pot / 2\<close>, the executor with
  \<open>pot - pot / 2\<close>, and the two add up to \<open>pot\<close> again. The arithmetic is that of
  \<^verbatim>\<open>uintptr_t\<close>; whenever \<open>a + b\<close> is representable the sum is also conserved as a
  natural number.
\<close>

theorem SHARE_conserves:
  assumes nb: "getNeighbor POND_SIZE_X POND_SIZE_Y x y (facing (pond s (x, y))) = Some n"
    and ok: "accessAllowed n (reg s) 1 s = Some (True, s1)"
  shows "\<exists>s'. dispatch x y OP_SHARE s = Some (False, s') \<and>
           energy (pond s' n) = (energy (pond s (x, y)) + energy (pond s n)) div 2 \<and>
           energy (pond s' (x, y)) = (energy (pond s (x, y)) + energy (pond s n))
                                     - (energy (pond s (x, y)) + energy (pond s n)) div 2 \<and>
           energy (pond s' (x, y)) + energy (pond s' n) = energy (pond s (x, y)) + energy (pond s n) \<and>
           (unat (energy (pond s (x, y))) + unat (energy (pond s n)) < 2 ^ 64 \<longrightarrow>
              unat (energy (pond s' (x, y))) + unat (energy (pond s' n)) =
              unat (energy (pond s (x, y))) + unat (energy (pond s n)))"
proof -
  let ?a = "energy (pond s (x, y))" and ?b = "energy (pond s n)"
  have ne: "n \<noteq> (x, y)" using nb by (rule getNeighbor_not_self)
  have s1: "pond s1 = pond s" using accessAllowed_state [OF ok] by simp
  have half: "unat ((?a + ?b) div 2) \<le> unat (?a + ?b)"
    by (simp add: unat_div)
  have nat_part: "unat ?a + unat ?b < 2 ^ 64 \<Longrightarrow>
      unat ((?a + ?b) - (?a + ?b) div 2) + unat ((?a + ?b) div 2) = unat ?a + unat ?b"
  proof -
    assume lt: "unat ?a + unat ?b < 2 ^ 64"
    then have sum: "unat (?a + ?b) = unat ?a + unat ?b" by (simp add: unat_word_ariths)
    have "(?a + ?b) div 2 \<le> ?a + ?b" using half by (simp add: word_le_nat_alt)
    then have "unat ((?a + ?b) - (?a + ?b) div 2) = unat (?a + ?b) - unat ((?a + ?b) div 2)"
      by (rule unat_sub)
    with half sum show ?thesis by simp
  qed
  show ?thesis
    using ne nat_part by (simp add: dispatch_SHARE nb ok s1 Let_def)
qed

text \<open>C4 on the example of the specification: 11 and 4 become 8 and 7.\<close>

theorem SHARE_conserves_witness:
  "getNeighbor POND_SIZE_X POND_SIZE_Y 2 0
       (facing (pond (two_cells (blank_cell\<lparr>energy := 11\<rparr>) (blank_cell\<lparr>energy := 4\<rparr>)) (2, 0))) = Some (3, 0) \<and>
   (\<exists>s1. accessAllowed (3, 0) (reg (two_cells (blank_cell\<lparr>energy := 11\<rparr>) (blank_cell\<lparr>energy := 4\<rparr>))) 1
           (two_cells (blank_cell\<lparr>energy := 11\<rparr>) (blank_cell\<lparr>energy := 4\<rparr>)) = Some (True, s1)) \<and>
   (\<exists>s'. dispatch 2 0 OP_SHARE (two_cells (blank_cell\<lparr>energy := 11\<rparr>) (blank_cell\<lparr>energy := 4\<rparr>)) = Some (False, s') \<and>
         energy (pond s' (2, 0)) = 8 \<and> energy (pond s' (3, 0)) = 7)"
proof -
  let ?s = "two_cells (blank_cell\<lparr>energy := 11\<rparr>) (blank_cell\<lparr>energy := 4\<rparr>)"
  have nb: "getNeighbor POND_SIZE_X POND_SIZE_Y 2 0 (facing (pond ?s (2, 0))) = Some (3, 0)"
    by (simp add: two_cells_def getNeighbor_def lookup_def dirmap_def dir_defs wrap_defs
                  pond_at_def POND_SIZE_X_def POND_SIZE_Y_def)
  have "parentID (pond ?s (3, 0)) = 0"
    by (simp add: two_cells_def blank_cell_def)
  then have ok: "accessAllowed (3, 0) (reg ?s) 1 ?s = Some (True, ?s\<lparr>rng := snd (getRandom (rng ?s))\<rparr>)"
    by (rule accessAllowed_parentless)
  have e: "energy (pond ?s (2, 0)) = 11" "energy (pond ?s (3, 0)) = 4"
    by (simp_all add: two_cells_def)
  from SHARE_conserves [OF nb ok] nb ok show ?thesis
    unfolding e by auto
qed

text \<open>
  C5. When \<open>KILL\<close> is dispatched for the cell at \<open>(x, y)\<close>, faces the neighbour \<open>n\<close>
  and the access test (sense 0, guess \<open>reg\<close>) is denied, the target cell is left
  as it was. If the target is viable (generation above 2), the attacker keeps all
  its fields but the energy \<open>e\<close>, which becomes \<open>e - e / FAILED_KILL_PENALTY\<close>, that
  is \<open>e - \<lfloor>e / 3\<rfloor>\<close> without wrap-around. If the target is not viable, nothing
  changes but the generator, advanced by the access test: the attempt costs
  nothing beyond the unit that the loop body charged before the dispatch.
\<close>

theorem KILL_denied:
  assumes nb: "getNeighbor POND_SIZE_X POND_SIZE_Y x y (facing (pond s (x, y))) = Some n"
    and no: "accessAllowed n (reg s) 0 s = Some (False, s1)"
  shows "\<exists>s'. dispatch x y OP_KILL s = Some (False, s') \<and>
           pond s' n = pond s n \<and>
           (generation (pond s n) > 2 \<longrightarrow>
              pond s' (x, y) = (pond s (x, y))
                 \<lparr>energy := energy (pond s (x, y)) - energy (pond s (x, y)) div FAILED_KILL_PENALTY\<rparr> \<and>
              unat (energy (pond s' (x, y))) =
                unat (energy (pond s (x, y))) - unat (energy (pond s (x, y))) div 3) \<and>
           (\<not> generation (pond s n) > 2 \<longrightarrow> s' = s1 \<and> pond s' = pond s)"
proof -
  let ?e = "energy (pond s (x, y))"
  have ne: "n \<noteq> (x, y)" using nb by (rule getNeighbor_not_self)
  have s1: "pond s1 = pond s" using accessAllowed_state [OF no] by simp
  have d: "unat (?e div 3) = unat ?e div 3" by (simp add: unat_div)
  then have le: "?e div 3 \<le> ?e" by (simp add: word_le_nat_alt)
  then have sub: "unat (?e - ?e div 3) = unat ?e - unat ?e div 3"
    using d by (simp add: unat_sub)
  have z: "\<not> ?e div 3 < ?e \<Longrightarrow> ?e = 0"
  proof -
    assume "\<not> ?e div 3 < ?e"
    then have "unat ?e \<le> unat ?e div 3" using d by (simp add: word_less_nat_alt)
    then have "unat ?e = 0" by simp
    then show "?e = 0" by (simp add: unat_eq_0)
  qed
  show ?thesis
  proof (cases "generation (pond s n) > 2")
    case False
    with ne show ?thesis by (simp add: dispatch_KILL nb no s1)
  next
    case True
    show ?thesis
    proof (cases "?e div 3 < ?e")
      case lt: True
      with True ne sub show ?thesis
        by (simp add: dispatch_KILL nb no s1 Let_def FAILED_KILL_PENALTY_def)
    next
      case ge: False
      from z [OF ge] have "?e = 0" .
      with True ne show ?thesis
        by (simp add: dispatch_KILL nb no s1 Let_def FAILED_KILL_PENALTY_def)
    qed
  qed
qed

lemma getRandom_two_cells [simp]:
  "getRandom (rng (two_cells a b)) = (0x400091, \<lparr>mt = (\<lambda>_. 0)(3 := 1), mti = 4\<rparr>)"
  using getRandom_blank by (simp add: two_cells_def)

lemma getNeighbor_two_cells [simp]:
  "getNeighbor POND_SIZE_X POND_SIZE_Y 2 0 (facing (pond (two_cells a b) (2, 0))) = Some (3, 0)"
  by (simp add: two_cells_def getNeighbor_def lookup_def dirmap_def dir_defs wrap_defs
                pond_at_def POND_SIZE_X_def POND_SIZE_Y_def)

lemma two_cells_sel [simp]:
  "pond (two_cells a b) (2, 0) = a\<lparr>facing := 1\<rparr>"
  "pond (two_cells a b) (3, 0) = b"
  "reg (two_cells a b) = 0"
  "cellIdCounter (two_cells a b) = 0"
  by (simp_all add: two_cells_def blank_state_def)

lemma accessAllowed_two_cells_denied:
  "accessAllowed (3, 0) 0 0 (two_cells a (blank_cell\<lparr>parentID := 5, generation := g\<rparr>)) =
     Some (False, (two_cells a (blank_cell\<lparr>parentID := 5, generation := g\<rparr>))
                    \<lparr>rng := \<lparr>mt = (\<lambda>_. 0)(3 := 1), mti = 4\<rparr>\<rparr>)"
  by (simp add: accessAllowed_def draw_eq lookup_def BITS_IN_FIVEBIT_WORD_def blank_cell_def)

text \<open>C5 with an attacker of energy 90 whose guess is refused: against a target of
  generation 3 it keeps 60, against a target of generation 2 it keeps 90; the
  target is unchanged both times.\<close>

theorem KILL_denied_witness:
  "(\<exists>s1. accessAllowed (3, 0) 0 0
            (two_cells (blank_cell\<lparr>energy := 90\<rparr>) (blank_cell\<lparr>parentID := 5, generation := 3\<rparr>)) =
          Some (False, s1)) \<and>
   (\<exists>s'. dispatch 2 0 OP_KILL
            (two_cells (blank_cell\<lparr>energy := 90\<rparr>) (blank_cell\<lparr>parentID := 5, generation := 3\<rparr>)) =
          Some (False, s') \<and>
        energy (pond s' (2, 0)) = 60 \<and>
        pond s' (3, 0) = blank_cell\<lparr>parentID := 5, generation := 3\<rparr>) \<and>
   (\<exists>s'. dispatch 2 0 OP_KILL
            (two_cells (blank_cell\<lparr>energy := 90\<rparr>) (blank_cell\<lparr>parentID := 5, generation := 2\<rparr>)) =
          Some (False, s') \<and>
        energy (pond s' (2, 0)) = 90 \<and>
        pond s' (3, 0) = blank_cell\<lparr>parentID := 5, generation := 2\<rparr>)"
proof -
  let ?v = "two_cells (blank_cell\<lparr>energy := 90\<rparr>) (blank_cell\<lparr>parentID := 5, generation := 3\<rparr>)"
  let ?w = "two_cells (blank_cell\<lparr>energy := 90\<rparr>) (blank_cell\<lparr>parentID := 5, generation := 2\<rparr>)"
  have nv: "getNeighbor POND_SIZE_X POND_SIZE_Y 2 0 (facing (pond ?v (2, 0))) = Some (3, 0)"
    and nw: "getNeighbor POND_SIZE_X POND_SIZE_Y 2 0 (facing (pond ?w (2, 0))) = Some (3, 0)"
    by (rule getNeighbor_two_cells)+
  have dv: "accessAllowed (3, 0) (reg ?v) 0 ?v = Some (False, ?v\<lparr>rng := \<lparr>mt = (\<lambda>_. 0)(3 := 1), mti = 4\<rparr>\<rparr>)"
    and dw: "accessAllowed (3, 0) (reg ?w) 0 ?w = Some (False, ?w\<lparr>rng := \<lparr>mt = (\<lambda>_. 0)(3 := 1), mti = 4\<rparr>\<rparr>)"
    using accessAllowed_two_cells_denied by simp_all
  from KILL_denied [OF nv dv] have "\<exists>s'. dispatch 2 0 OP_KILL ?v = Some (False, s') \<and>
        energy (pond s' (2, 0)) = 60 \<and> pond s' (3, 0) = blank_cell\<lparr>parentID := 5, generation := 3\<rparr>"
    by (auto simp: FAILED_KILL_PENALTY_def blank_cell_def)
  moreover from KILL_denied [OF nw dw] have "\<exists>s'. dispatch 2 0 OP_KILL ?w = Some (False, s') \<and>
        energy (pond s' (2, 0)) = 90 \<and> pond s' (3, 0) = blank_cell\<lparr>parentID := 5, generation := 2\<rparr>"
    by (auto simp: blank_cell_def)
  moreover from dv have "\<exists>s1. accessAllowed (3, 0) 0 0 ?v = Some (False, s1)" by simp
  ultimately show ?thesis by blast
qed

text \<open>
  C9. When \<open>KILL\<close> is dispatched for the cell at \<open>(x, y)\<close>, faces the neighbour \<open>n\<close>
  and the access test (sense 0, guess \<open>reg\<close>) succeeds, the energy of the target
  and its RAM are unchanged. The target becomes its old self with only these
  fields reset: the genome (every codon \<open>STOP\<close>), \<open>ID\<close> and \<open>lineage\<close> (the value of
  the cell counter), \<open>parentID\<close>, \<open>generation\<close>, \<open>logo\<close> and \<open>facing\<close> (all 0). Every
  other cell of the pond is unchanged.
\<close>

theorem KILL_permitted:
  assumes nb: "getNeighbor POND_SIZE_X POND_SIZE_Y x y (facing (pond s (x, y))) = Some n"
    and ok: "accessAllowed n (reg s) 0 s = Some (True, s1)"
  shows "\<exists>s'. dispatch x y OP_KILL s = Some (False, s') \<and>
           energy (pond s' n) = energy (pond s n) \<and>
           ram (pond s' n) = ram (pond s n) \<and>
           pond s' n = (pond s n)
              \<lparr>ID := cellIdCounter s, parentID := 0, lineage := cellIdCounter s,
               generation := 0, logo := 0, facing := 0,
               genome := (\<lambda>i. if i < POND_DEPTH then ucast OP_STOP else genome (pond s n) i)\<rparr> \<and>
           (\<forall>i<POND_DEPTH. genome (pond s' n) i = ucast OP_STOP) \<and>
           (\<forall>p. p \<noteq> n \<longrightarrow> pond s' p = pond s p)"
proof -
  have s1: "s1 = s\<lparr>rng := snd (getRandom (rng s))\<rparr>" using ok by (rule accessAllowed_state)
  have ok': "accessAllowed n (reg s) 0 s = Some (True, s\<lparr>rng := snd (getRandom (rng s))\<rparr>)"
    using ok unfolding s1 .
  show ?thesis
    by (simp add: dispatch_KILL nb ok' Let_def fill_genome cong: if_cong)
qed

text \<open>C9 on a parentless target with energy 50 and RAM bytes 7: after the \<open>KILL\<close> it
  is a blank cell that still has energy 50 and the same RAM.\<close>

theorem KILL_permitted_witness:
  "(\<exists>s1. accessAllowed (3, 0) 0 0
            (two_cells (blank_cell\<lparr>energy := 90\<rparr>)
               (blank_cell\<lparr>ID := 4, lineage := 2, generation := 3, energy := 50, logo := 9,
                           ram := (\<lambda>_. 7)\<rparr>)) = Some (True, s1)) \<and>
   (\<exists>s'. dispatch 2 0 OP_KILL
            (two_cells (blank_cell\<lparr>energy := 90\<rparr>)
               (blank_cell\<lparr>ID := 4, lineage := 2, generation := 3, energy := 50, logo := 9,
                           ram := (\<lambda>_. 7)\<rparr>)) = Some (False, s') \<and>
         pond s' (3, 0) = blank_cell\<lparr>energy := 50, ram := (\<lambda>_. 7)\<rparr>)"
proof -
  let ?t = "blank_cell\<lparr>ID := 4, lineage := 2, generation := 3, energy := 50, logo := 9, ram := (\<lambda>_. 7)\<rparr>"
  let ?v = "two_cells (blank_cell\<lparr>energy := 90\<rparr>) ?t"
  have nv: "getNeighbor POND_SIZE_X POND_SIZE_Y 2 0 (facing (pond ?v (2, 0))) = Some (3, 0)"
    by (rule getNeighbor_two_cells)
  have "parentID (pond ?v (3, 0)) = 0" by (simp add: blank_cell_def)
  then have ok: "accessAllowed (3, 0) (reg ?v) 0 ?v = Some (True, ?v\<lparr>rng := snd (getRandom (rng ?v))\<rparr>)"
    by (rule accessAllowed_parentless)
  have "(\<lambda>i. if i < POND_DEPTH then ucast OP_STOP else genome (pond ?v (3, 0)) i) = (\<lambda>_. ucast OP_STOP)"
    by (auto simp: blank_cell_def)
  with KILL_permitted [OF nv ok] have "\<exists>s'. dispatch 2 0 OP_KILL ?v = Some (False, s') \<and>
         pond s' (3, 0) = blank_cell\<lparr>energy := 50, ram := (\<lambda>_. 7)\<rparr>"
    by (auto simp: blank_cell_def)
  moreover from ok have "\<exists>s1. accessAllowed (3, 0) 0 0 ?v = Some (True, s1)" by simp
  ultimately show ?thesis by blast
qed

subsection \<open>One random word for each access test\<close>

text \<open>
  C10. Every call of the access oracle, in either sense and whatever it answers,
  returns the state with nothing changed but the generator, which is advanced by
  exactly one \<open>getRandom()\<close> word. This is so also when the target has
  \<open>parentID = 0\<close>, where the answer is always \<open>allowed\<close>.
\<close>

theorem accessAllowed_one_draw:
  "(\<exists>ok. accessAllowed c2 c1guess sense s = Some (ok, s\<lparr>rng := snd (getRandom (rng s))\<rparr>)) \<and>
   (parentID (pond s c2) = 0 \<longrightarrow>
      accessAllowed c2 c1guess sense s = Some (True, s\<lparr>rng := snd (getRandom (rng s))\<rparr>))"
  using accessAllowed_total [of c2 c1guess sense s] accessAllowed_parentless [of s c2 c1guess sense]
  by blast

text \<open>On the 64-bit target one \<open>getRandom()\<close> word is made of two outputs of the
  Mersenne Twister: away from a regeneration the index \<open>mti\<close> moves by two and
  the state vector stays as it is.\<close>

lemma getRandom_two_outputs:
  assumes "mti g + 1 < N_mt"
  shows "mti (snd (getRandom g)) = mti g + 2 \<and> mt (snd (getRandom g)) = mt g"
  using assms by (simp add: getRandom_def genrand_int32_def Let_def case_prod_unfold)

text \<open>C10 on a parentless target: both senses allow the access and leave the
  generator where one \<open>getRandom()\<close> leaves it, two outputs further.\<close>

theorem accessAllowed_one_draw_witness:
  "parentID (pond (two_cells blank_cell blank_cell) (3, 0)) = 0 \<and>
   accessAllowed (3, 0) 7 0 (two_cells blank_cell blank_cell) =
     Some (True, (two_cells blank_cell blank_cell)\<lparr>rng := \<lparr>mt = (\<lambda>_. 0)(3 := 1), mti = 4\<rparr>\<rparr>) \<and>
   accessAllowed (3, 0) 7 1 (two_cells blank_cell blank_cell) =
     Some (True, (two_cells blank_cell blank_cell)\<lparr>rng := \<lparr>mt = (\<lambda>_. 0)(3 := 1), mti = 4\<rparr>\<rparr>)"
proof -
  have p: "parentID (pond (two_cells blank_cell blank_cell) (3, 0)) = 0"
    by (simp add: blank_cell_def)
  from accessAllowed_one_draw [of "(3, 0)" 7 0 "two_cells blank_cell blank_cell"]
       accessAllowed_one_draw [of "(3, 0)" 7 1 "two_cells blank_cell blank_cell"] p
  show ?thesis by simp
qed

subsection \<open>\<open>LOOP\<close> and \<open>REP\<close>\<close>

lemma execute_skip:
  "falseLoopDepth s \<noteq> 0 \<Longrightarrow>
   execute x y inst s =
     Some (False, s\<lparr>falseLoopDepth :=
                      (if inst = OP_LOOP then falseLoopDepth s + 1
                       else if inst = OP_REP then falseLoopDepth s - 1
                       else falseLoopDepth s)\<rparr>)"
  by (simp add: execute_def op_defs)

lemma execute_counted:
  assumes "falseLoopDepth s = 0" "inst < 32"
  shows "\<exists>f. execute x y inst s = dispatch x y inst (stat f s)"
proof -
  from assms(2) have "unat inst < 32" by (simp add: word_less_nat_alt)
  with assms(1) show ?thesis
    by (auto simp: execute_def rd_def wr_def NUM_INST_def)
qed

lemma dispatch_LOOP:
  "dispatch x y OP_LOOP s =
        (if reg s \<noteq> 0 then
           (if unat (loopStackPtr s) \<ge> POND_DEPTH then Some (False, s\<lparr>stop := 1\<rparr>)
            else do {
              l \<leftarrow> wr POND_DEPTH (loopStack s) (unat (loopStackPtr s)) (instPtr s);
              Some (False, s\<lparr>loopStack := l, loopStackPtr := loopStackPtr s + 1\<rparr>)
            })
         else Some (False, s\<lparr>falseLoopDepth := 1\<rparr>))"
  by (simp add: dispatch_def op_defs Let_def)

lemma dispatch_REP:
  "dispatch x y OP_REP s =
        (if loopStackPtr s \<noteq> 0 then
           (let s1 = s\<lparr>loopStackPtr := loopStackPtr s - 1\<rparr> in
            if reg s1 \<noteq> 0 then do {
              v \<leftarrow> rd POND_DEPTH (loopStack s1) (unat (loopStackPtr s1));
              Some (True, s1\<lparr>instPtr := v\<rparr>)
            }
            else Some (False, s1))
         else Some (False, s))"
  by (simp add: dispatch_def op_defs Let_def)

lemma unat_pred_less:
  assumes "(w :: uintptr) \<noteq> 0" "unat w \<le> n"
  shows "unat (w - 1) < n"
proof -
  from assms(1) have "unat w \<noteq> 0" by (simp add: unat_eq_0)
  then have "unat (w - 1) = unat w - 1" by (simp add: unat_minus_one assms(1))
  with assms(2) \<open>unat w \<noteq> 0\<close> show ?thesis by simp
qed

lemma LOOP_enters_skip:
  assumes "falseLoopDepth s = 0" "reg s = 0"
  shows "\<exists>s'. execute_and_advance x y OP_LOOP s = Some s' \<and>
            s' = (advance (s\<lparr>falseLoopDepth := 1\<rparr>))\<lparr>statCounters := statCounters s'\<rparr>"
proof -
  obtain f where "execute x y OP_LOOP s = dispatch x y OP_LOOP (stat f s)"
    using execute_counted [of s OP_LOOP x y] assms by (auto simp: op_defs)
  with assms show ?thesis
    by (simp add: execute_and_advance_def dispatch_LOOP advance_def stat_def Let_def)
qed

lemma skip_mode:
  assumes "falseLoopDepth s \<noteq> 0"
  shows "execute_and_advance x y inst s =
        Some (advance (s\<lparr>falseLoopDepth :=
                            (if inst = OP_LOOP then falseLoopDepth s + 1
                             else if inst = OP_REP then falseLoopDepth s - 1
                             else falseLoopDepth s)\<rparr>))"
  using assms by (simp add: execute_and_advance_def execute_skip)

lemma REP_jumps_back:
  assumes "falseLoopDepth s = 0" "reg s \<noteq> 0" "loopStackPtr s \<noteq> 0"
    "unat (loopStackPtr s) \<le> POND_DEPTH"
  shows "\<exists>s'. execute_and_advance x y OP_REP s = Some s' \<and>
            s' = s\<lparr>loopStackPtr := loopStackPtr s - 1,
                   instPtr := loopStack s (unat (loopStackPtr s - 1)),
                   statCounters := statCounters s'\<rparr>"
proof -
  obtain f where "execute x y OP_REP s = dispatch x y OP_REP (stat f s)"
    using execute_counted [of s OP_REP x y] assms by (auto simp: op_defs)
  moreover from assms have "unat (loopStackPtr s - 1) < POND_DEPTH" by (simp add: unat_pred_less)
  ultimately show ?thesis
    using assms by (simp add: execute_and_advance_def dispatch_REP rd_def stat_def Let_def)
qed

lemma LOOP_pushes_slot:
  assumes "falseLoopDepth s = 0" "reg s \<noteq> 0" "unat (loopStackPtr s) < POND_DEPTH"
  shows "\<exists>s'. execute_and_advance x y OP_LOOP s = Some s' \<and>
            s' = (advance (s\<lparr>loopStack := (loopStack s)(unat (loopStackPtr s) := instPtr s),
                             loopStackPtr := loopStackPtr s + 1\<rparr>))\<lparr>statCounters := statCounters s'\<rparr>"
proof -
  obtain f where "execute x y OP_LOOP s = dispatch x y OP_LOOP (stat f s)"
    using execute_counted [of s OP_LOOP x y] assms by (auto simp: op_defs)
  with assms show ?thesis
    by (simp add: execute_and_advance_def dispatch_LOOP wr_def advance_def stat_def Let_def)
qed

lemma advance_sel [simp]:
  "pond (advance s) = pond s"
  "statCounters (advance s) = statCounters s"
  "rng (advance s) = rng s"
  "cellIdCounter (advance s) = cellIdCounter s"
  "outputBuf (advance s) = outputBuf s"
  "ptr_ioPtr (advance s) = ptr_ioPtr s"
  "ptr_mem (advance s) = ptr_mem s"
  "reg (advance s) = reg s"
  "loopStack (advance s) = loopStack s"
  "loopStackPtr (advance s) = loopStackPtr s"
  "falseLoopDepth (advance s) = falseLoopDepth s"
  "stop (advance s) = stop s"
  by (simp_all add: advance_def Let_def)

lemma mutation_falseLoopDepth:
  "mutation x y i s = Some (inst, s1) \<Longrightarrow> falseLoopDepth s1 = falseLoopDepth s"
  by (auto simp: mutation_def draw_eq Let_def split: if_splits bind_splits)


lemma step_skip:
  assumes "falseLoopDepth s \<noteq> 0"
  shows "step x y s = do {
           v \<leftarrow> rd POND_DEPTH (genome (pond s (x, y))) (unat (instPtr s));
           (inst, s1) \<leftarrow> mutation x y (ucast v) s;
           Some (advance ((cell_upd (x, y) (\<lambda>k. k\<lparr>energy := energy k - 1\<rparr>) s1)
                   \<lparr>falseLoopDepth :=
                      (if inst = OP_LOOP then falseLoopDepth s + 1
                       else if inst = OP_REP then falseLoopDepth s - 1
                       else falseLoopDepth s)\<rparr>))
         }"
proof (cases "rd POND_DEPTH (genome (pond s (x, y))) (unat (instPtr s))")
  case None
  then show ?thesis by (simp add: step_def)
next
  case (Some v)
  show ?thesis
  proof (cases "mutation x y (ucast v) s")
    case None
    with Some show ?thesis by (simp add: step_def)
  next
    case m: (Some p)
    obtain inst s1 where p: "p = (inst, s1)" by (cases p)
    from m p have "falseLoopDepth s1 = falseLoopDepth s" by (simp add: mutation_falseLoopDepth)
    with assms Some m p show ?thesis
      by (simp add: step_def skip_mode)
  qed
qed

lemma unat_and_15: "unat ((w :: uintptr) AND 15) < 16"
proof -
  have "w AND 15 \<le> 15" by (rule word_and_le1)
  then show ?thesis by (simp add: word_le_nat_alt)
qed

text \<open>The mutation injection in closed form: it always succeeds.\<close>

lemma mutation_eq:
  "mutation x y inst s =
     (if (fst (getRandom (rng s)) AND 0xffffffff) < MUTATION_RATE then
        (let tmp = fst (getRandom (snd (getRandom (rng s))));
             s2 = s\<lparr>rng := snd (getRandom (snd (getRandom (rng s))))\<rparr>
         in Some (if tmp AND 0x20000 \<noteq> 0 then
                    (if tmp AND 0x10000 \<noteq> 0 then (tmp AND INST_MASK, s2)
                     else (inst, s2\<lparr>reg := tmp AND REG_MASK\<rparr>))
                  else if tmp AND 0x10000 \<noteq> 0 then (inst, s2\<lparr>ptr_mem := tmp AND MEM_MASK\<rparr>)
                  else (inst, cell_upd (x, y)
                                (\<lambda>k. k\<lparr>ram := (ram k)(unat (drop_bit 8 tmp AND RAM_MASK) :=
                                                          ucast (tmp AND REG_MASK))\<rparr>) s2)))
      else Some (inst, s\<lparr>rng := snd (getRandom (rng s))\<rparr>))"
  using unat_and_15 [of "drop_bit 8 (fst (getRandom (snd (getRandom (rng s)))))"]
  by (simp add: mutation_def draw_eq Let_def wr_def RAM_SIZE_def RAM_MASK_def cell_upd_def)

lemma step_skip_plain:
  assumes "falseLoopDepth s \<noteq> 0" "unat (instPtr s) < POND_DEPTH"
    and "\<not> (fst (getRandom (rng s)) AND 0xffffffff) < MUTATION_RATE"
  shows "step x y s =
     Some (advance ((cell_upd (x, y) (\<lambda>k. k\<lparr>energy := energy k - 1\<rparr>)
                       (s\<lparr>rng := snd (getRandom (rng s))\<rparr>))
             \<lparr>falseLoopDepth :=
                (if ucast (genome (pond s (x, y)) (unat (instPtr s))) = OP_LOOP
                 then falseLoopDepth s + 1
                 else if ucast (genome (pond s (x, y)) (unat (instPtr s))) = OP_REP
                 then falseLoopDepth s - 1
                 else falseLoopDepth s)\<rparr>))"
  using assms by (simp add: step_skip rd_def mutation_eq)

lemma step_skip_mutated:
  assumes "falseLoopDepth s \<noteq> 0" "unat (instPtr s) < POND_DEPTH"
    and "(fst (getRandom (rng s)) AND 0xffffffff) < MUTATION_RATE"
  shows "step x y s =
     (let fetched = ucast (genome (pond s (x, y)) (unat (instPtr s)));
          tmp = fst (getRandom (snd (getRandom (rng s))));
          s2 = s\<lparr>rng := snd (getRandom (snd (getRandom (rng s))))\<rparr>;
          (i, s3) =
            (if tmp AND 0x20000 \<noteq> 0 then
               (if tmp AND 0x10000 \<noteq> 0 then (tmp AND INST_MASK, s2)
                else (fetched, s2\<lparr>reg := tmp AND REG_MASK\<rparr>))
             else if tmp AND 0x10000 \<noteq> 0 then (fetched, s2\<lparr>ptr_mem := tmp AND MEM_MASK\<rparr>)
             else (fetched, cell_upd (x, y)
                              (\<lambda>k. k\<lparr>ram := (ram k)(unat (drop_bit 8 tmp AND RAM_MASK) :=
                                                        ucast (tmp AND REG_MASK))\<rparr>) s2))
      in Some (advance ((cell_upd (x, y) (\<lambda>k. k\<lparr>energy := energy k - 1\<rparr>) s3)
                 \<lparr>falseLoopDepth :=
                    (if i = OP_LOOP then falseLoopDepth s + 1
                     else if i = OP_REP then falseLoopDepth s - 1
                     else falseLoopDepth s)\<rparr>)))"
  using assms by (simp add: step_skip rd_def mutation_eq Let_def)

lemma getRandom_mutating_skip:
  "getRandom (rng mutating_skip) = (0, \<lparr>mt = (\<lambda>_. 0)(3 := 131114), mti = 2\<rparr>)"
  "getRandom \<lparr>mt = (\<lambda>_. 0)(3 := 131114), mti = 2\<rparr> =
     (0x0b0616ab, \<lparr>mt = (\<lambda>_. 0)(3 := 131114), mti = 4\<rparr>)"
  by (simp_all add: mutating_skip_def getRandom_def genrand_int32_def N_mt_def Let_def)

lemma mutating_skip_sel:
  "falseLoopDepth mutating_skip = 1" "reg mutating_skip = 0" "instPtr mutating_skip = 0"
  "genome (pond mutating_skip (2, 0)) 0 = ucast OP_INC"
  "energy (pond mutating_skip (2, 0)) = 10"
  by (simp_all add: mutating_skip_def two_cells_def blank_state_def EXEC_START_INST_def)

lemma step_mutating_skip:
  "step 2 0 mutating_skip =
     Some (advance (cell_upd (2, 0) (\<lambda>k. k\<lparr>energy := energy k - 1\<rparr>)
                     (mutating_skip\<lparr>rng := \<lparr>mt = (\<lambda>_. 0)(3 := 131114), mti = 4\<rparr>, reg := 171\<rparr>)
                   \<lparr>falseLoopDepth := 1\<rparr>))"
proof -
  have f: "falseLoopDepth mutating_skip \<noteq> 0" by (simp add: mutating_skip_sel)
  have i: "unat (instPtr mutating_skip) < POND_DEPTH"
    by (simp add: mutating_skip_sel POND_DEPTH_def)
  have m: "(fst (getRandom (rng mutating_skip)) AND 0xffffffff) < MUTATION_RATE"
    by (simp add: getRandom_mutating_skip MUTATION_RATE_def)
  show ?thesis
    unfolding step_skip_mutated [OF f i m]
    by (simp add: getRandom_mutating_skip mutating_skip_sel op_defs REG_MASK_def)
qed

text \<open>
  C6 as stated fails: instructions in a false loop are not left without effect on
  the machine. The mutation injection comes before the test of \<open>falseLoopDepth\<close>,
  so it also runs in an iteration that skips its instruction. In the state
  \<open>mutating_skip\<close> the skip depth is 1, the register is 0 and the instruction under
  the pointer is \<open>INC\<close>; after the iteration the depth is still 1 and the register
  is 171.
\<close>

theorem skipped_INC_changes_reg_counterexample:
  "falseLoopDepth mutating_skip = 1 \<and> reg mutating_skip = 0 \<and>
   genome (pond mutating_skip (2, 0)) (unat (instPtr mutating_skip)) = ucast OP_INC \<and>
   map_option falseLoopDepth (step 2 0 mutating_skip) = Some 1 \<and>
   map_option reg (step 2 0 mutating_skip) = Some 171"
  by (simp add: step_mutating_skip mutating_skip_sel)

text \<open>
  C6 (as the code has it). The control flow of \<open>LOOP\<close> and \<open>REP\<close>, on the end of
  the loop body (\<open>execute_and_advance\<close>, entered after the fetch, the mutation and
  the energy debit) and on the whole iteration (\<open>step\<close>):
  \<^item> \<open>LOOP\<close> with \<open>reg = 0\<close> outside a false loop sets \<open>falseLoopDepth\<close> to 1 and
    advances; nothing else changes but the execution counter.
  \<^item> With \<open>falseLoopDepth\<close> nonzero, the execution of any instruction only advances
    the instruction pointer, after \<open>LOOP\<close> has deepened the skip by one or \<open>REP\<close>
    has popped one level of it; no other part of the state changes. When a \<open>REP\<close>
    brings the depth to 0, the pointer stands on the slot after it.
  \<^item> \<open>REP\<close> with a non-empty loop stack and \<open>reg \<noteq> 0\<close> pops the stack and sets the
    instruction pointer to the popped value, without advancing.
  \<^item> \<open>LOOP\<close> with \<open>reg \<noteq> 0\<close> pushes its own slot, so a \<open>REP\<close> that follows brings
    the instruction pointer back to the \<open>LOOP\<close> itself.
  \<^item> A whole iteration in a false loop in which the mutation test fails changes
    the generator (one random word), the energy of the cell (one unit less), the
    skip depth (by the fetched instruction) and the instruction pointer, and
    nothing else.
  \<^item> A whole iteration in a false loop in which the mutation test succeeds draws
    a second random word \<open>tmp\<close> and, by bits 17 and 16 of it, either replaces the
    fetched instruction by \<open>tmp AND INST_MASK\<close> (the skip depth then follows the
    replaced instruction), or sets \<open>reg\<close> to \<open>tmp AND REG_MASK\<close>, or sets the memory
    pointer to \<open>tmp AND MEM_MASK\<close>, or writes the low byte of \<open>tmp\<close> to one byte of
    the cell's RAM; beyond that it changes what the iteration without mutation
    changes, and nothing else.
\<close>

theorem LOOP_REP_control:
  "(falseLoopDepth s = 0 \<and> reg s = 0 \<longrightarrow>
      (\<exists>s'. execute_and_advance x y OP_LOOP s = Some s' \<and>
            s' = (advance (s\<lparr>falseLoopDepth := 1\<rparr>))\<lparr>statCounters := statCounters s'\<rparr>)) \<and>
   (falseLoopDepth s \<noteq> 0 \<longrightarrow>
      execute_and_advance x y inst s =
        Some (advance (s\<lparr>falseLoopDepth :=
                            (if inst = OP_LOOP then falseLoopDepth s + 1
                             else if inst = OP_REP then falseLoopDepth s - 1
                             else falseLoopDepth s)\<rparr>))) \<and>
   (falseLoopDepth s = 0 \<and> reg s \<noteq> 0 \<and> loopStackPtr s \<noteq> 0 \<and> unat (loopStackPtr s) \<le> POND_DEPTH \<longrightarrow>
      (\<exists>s'. execute_and_advance x y OP_REP s = Some s' \<and>
            s' = s\<lparr>loopStackPtr := loopStackPtr s - 1,
                   instPtr := loopStack s (unat (loopStackPtr s - 1)),
                   statCounters := statCounters s'\<rparr>)) \<and>
   (falseLoopDepth s = 0 \<and> reg s \<noteq> 0 \<and> unat (loopStackPtr s) < POND_DEPTH \<longrightarrow>
      (\<exists>s1 s2. execute_and_advance x y OP_LOOP s = Some s1 \<and>
            s1 = (advance (s\<lparr>loopStack := (loopStack s)(unat (loopStackPtr s) := instPtr s),
                             loopStackPtr := loopStackPtr s + 1\<rparr>))\<lparr>statCounters := statCounters s1\<rparr> \<and>
            execute_and_advance x y OP_REP s1 = Some s2 \<and>
            instPtr s2 = instPtr s \<and> loopStackPtr s2 = loopStackPtr s)) \<and>
   (falseLoopDepth s \<noteq> 0 \<and> unat (instPtr s) < POND_DEPTH \<and>
    \<not> (fst (getRandom (rng s)) AND 0xffffffff) < MUTATION_RATE \<longrightarrow>
      step x y s =
        Some (advance ((cell_upd (x, y) (\<lambda>k. k\<lparr>energy := energy k - 1\<rparr>)
                          (s\<lparr>rng := snd (getRandom (rng s))\<rparr>))
                \<lparr>falseLoopDepth :=
                   (if ucast (genome (pond s (x, y)) (unat (instPtr s))) = OP_LOOP
                    then falseLoopDepth s + 1
                    else if ucast (genome (pond s (x, y)) (unat (instPtr s))) = OP_REP
                    then falseLoopDepth s - 1
                    else falseLoopDepth s)\<rparr>))) \<and>
   (falseLoopDepth s \<noteq> 0 \<and> unat (instPtr s) < POND_DEPTH \<and>
    (fst (getRandom (rng s)) AND 0xffffffff) < MUTATION_RATE \<longrightarrow>
      step x y s =
        (let fetched = ucast (genome (pond s (x, y)) (unat (instPtr s)));
             tmp = fst (getRandom (snd (getRandom (rng s))));
             s2 = s\<lparr>rng := snd (getRandom (snd (getRandom (rng s))))\<rparr>;
             (i, s3) =
               (if tmp AND 0x20000 \<noteq> 0 then
                  (if tmp AND 0x10000 \<noteq> 0 then (tmp AND INST_MASK, s2)
                   else (fetched, s2\<lparr>reg := tmp AND REG_MASK\<rparr>))
                else if tmp AND 0x10000 \<noteq> 0 then (fetched, s2\<lparr>ptr_mem := tmp AND MEM_MASK\<rparr>)
                else (fetched, cell_upd (x, y)
                                 (\<lambda>k. k\<lparr>ram := (ram k)(unat (drop_bit 8 tmp AND RAM_MASK) :=
                                                           ucast (tmp AND REG_MASK))\<rparr>) s2))
         in Some (advance ((cell_upd (x, y) (\<lambda>k. k\<lparr>energy := energy k - 1\<rparr>) s3)
                    \<lparr>falseLoopDepth :=
                       (if i = OP_LOOP then falseLoopDepth s + 1
                        else if i = OP_REP then falseLoopDepth s - 1
                        else falseLoopDepth s)\<rparr>))))"
proof (intro conjI impI)
  assume "falseLoopDepth s = 0 \<and> reg s = 0"
  then show "\<exists>s'. execute_and_advance x y OP_LOOP s = Some s' \<and>
            s' = (advance (s\<lparr>falseLoopDepth := 1\<rparr>))\<lparr>statCounters := statCounters s'\<rparr>"
    by (simp add: LOOP_enters_skip)
next
  assume "falseLoopDepth s \<noteq> 0"
  then show "execute_and_advance x y inst s =
        Some (advance (s\<lparr>falseLoopDepth :=
                            (if inst = OP_LOOP then falseLoopDepth s + 1
                             else if inst = OP_REP then falseLoopDepth s - 1
                             else falseLoopDepth s)\<rparr>))"
    by (rule skip_mode)
next
  assume "falseLoopDepth s = 0 \<and> reg s \<noteq> 0 \<and> loopStackPtr s \<noteq> 0 \<and> unat (loopStackPtr s) \<le> POND_DEPTH"
  then show "\<exists>s'. execute_and_advance x y OP_REP s = Some s' \<and>
            s' = s\<lparr>loopStackPtr := loopStackPtr s - 1,
                   instPtr := loopStack s (unat (loopStackPtr s - 1)),
                   statCounters := statCounters s'\<rparr>"
    by (simp add: REP_jumps_back)
next
  assume a: "falseLoopDepth s = 0 \<and> reg s \<noteq> 0 \<and> unat (loopStackPtr s) < POND_DEPTH"
  then obtain s1 where 1: "execute_and_advance x y OP_LOOP s = Some s1"
    and s1: "s1 = (advance (s\<lparr>loopStack := (loopStack s)(unat (loopStackPtr s) := instPtr s),
                             loopStackPtr := loopStackPtr s + 1\<rparr>))\<lparr>statCounters := statCounters s1\<rparr>"
    using LOOP_pushes_slot [of s x y] by blast
  from a have u: "unat (loopStackPtr s + 1) = unat (loopStackPtr s) + 1"
    by (simp add: unat_word_ariths POND_DEPTH_def)
  then have nz: "loopStackPtr s + 1 \<noteq> 0" by (metis Suc_eq_plus1 nat.distinct(1) unat_0)
  have f1: "falseLoopDepth s1 = falseLoopDepth s" "reg s1 = reg s"
    "loopStackPtr s1 = loopStackPtr s + 1"
    "loopStack s1 = (loopStack s)(unat (loopStackPtr s) := instPtr s)"
    by (subst s1, simp)+
  from a u f1 nz obtain s2 where 2: "execute_and_advance x y OP_REP s1 = Some s2"
    and s2: "s2 = s1\<lparr>loopStackPtr := loopStackPtr s1 - 1,
                   instPtr := loopStack s1 (unat (loopStackPtr s1 - 1)),
                   statCounters := statCounters s2\<rparr>"
    using REP_jumps_back [of s1 x y] by auto
  have "instPtr s2 = instPtr s" "loopStackPtr s2 = loopStackPtr s"
    by (subst s2, simp add: f1)+
  with 1 s1 2 show "\<exists>s1 s2. execute_and_advance x y OP_LOOP s = Some s1 \<and>
            s1 = (advance (s\<lparr>loopStack := (loopStack s)(unat (loopStackPtr s) := instPtr s),
                             loopStackPtr := loopStackPtr s + 1\<rparr>))\<lparr>statCounters := statCounters s1\<rparr> \<and>
            execute_and_advance x y OP_REP s1 = Some s2 \<and>
            instPtr s2 = instPtr s \<and> loopStackPtr s2 = loopStackPtr s"
    by blast
next
  assume "falseLoopDepth s \<noteq> 0 \<and> unat (instPtr s) < POND_DEPTH \<and>
    \<not> (fst (getRandom (rng s)) AND 0xffffffff) < MUTATION_RATE"
  then show "step x y s =
        Some (advance ((cell_upd (x, y) (\<lambda>k. k\<lparr>energy := energy k - 1\<rparr>)
                          (s\<lparr>rng := snd (getRandom (rng s))\<rparr>))
                \<lparr>falseLoopDepth :=
                   (if ucast (genome (pond s (x, y)) (unat (instPtr s))) = OP_LOOP
                    then falseLoopDepth s + 1
                    else if ucast (genome (pond s (x, y)) (unat (instPtr s))) = OP_REP
                    then falseLoopDepth s - 1
                    else falseLoopDepth s)\<rparr>))"
    by (simp add: step_skip_plain)
next
  assume "falseLoopDepth s \<noteq> 0 \<and> unat (instPtr s) < POND_DEPTH \<and>
    (fst (getRandom (rng s)) AND 0xffffffff) < MUTATION_RATE"
  then show "step x y s =
        (let fetched = ucast (genome (pond s (x, y)) (unat (instPtr s)));
             tmp = fst (getRandom (snd (getRandom (rng s))));
             s2 = s\<lparr>rng := snd (getRandom (snd (getRandom (rng s))))\<rparr>;
             (i, s3) =
               (if tmp AND 0x20000 \<noteq> 0 then
                  (if tmp AND 0x10000 \<noteq> 0 then (tmp AND INST_MASK, s2)
                   else (fetched, s2\<lparr>reg := tmp AND REG_MASK\<rparr>))
                else if tmp AND 0x10000 \<noteq> 0 then (fetched, s2\<lparr>ptr_mem := tmp AND MEM_MASK\<rparr>)
                else (fetched, cell_upd (x, y)
                                 (\<lambda>k. k\<lparr>ram := (ram k)(unat (drop_bit 8 tmp AND RAM_MASK) :=
                                                           ucast (tmp AND REG_MASK))\<rparr>) s2))
         in Some (advance ((cell_upd (x, y) (\<lambda>k. k\<lparr>energy := energy k - 1\<rparr>) s3)
                    \<lparr>falseLoopDepth :=
                       (if i = OP_LOOP then falseLoopDepth s + 1
                        else if i = OP_REP then falseLoopDepth s - 1
                        else falseLoopDepth s)\<rparr>)))"
    by (simp add: step_skip_mutated)
qed


lemma blank_state_sel [simp]:
  "falseLoopDepth blank_state = 0" "reg blank_state = 0" "instPtr blank_state = 0"
  "loopStackPtr blank_state = 0"
  by (simp_all add: blank_state_def EXEC_START_INST_def)

text \<open>C6 on concrete states: entering the skip, skipping \<open>INC\<close>, a nested
  \<open>LOOP\<close>, the \<open>REP\<close> that ends the skip, a \<open>REP\<close> that jumps back to slot 7, a
  \<open>LOOP\<close> at slot 7 followed by a \<open>REP\<close>, a whole skipped iteration without
  mutation that costs one unit of energy, and a whole skipped iteration in which
  the mutation sets the register.\<close>

theorem LOOP_REP_control_witness:
  "(\<exists>s'. execute_and_advance 2 0 OP_LOOP blank_state = Some s' \<and>
         falseLoopDepth s' = 1 \<and> instPtr s' = 1 \<and> loopStackPtr s' = 0) \<and>
   execute_and_advance 2 0 OP_INC (blank_state\<lparr>falseLoopDepth := 1\<rparr>) =
     Some (blank_state\<lparr>falseLoopDepth := 1, instPtr := 1\<rparr>) \<and>
   execute_and_advance 2 0 OP_LOOP (blank_state\<lparr>falseLoopDepth := 1\<rparr>) =
     Some (blank_state\<lparr>falseLoopDepth := 2, instPtr := 1\<rparr>) \<and>
   execute_and_advance 2 0 OP_REP (blank_state\<lparr>falseLoopDepth := 1\<rparr>) =
     Some (blank_state\<lparr>falseLoopDepth := 0, instPtr := 1\<rparr>) \<and>
   (\<exists>s'. execute_and_advance 2 0 OP_REP
            (blank_state\<lparr>reg := 1, instPtr := 9, loopStackPtr := 1, loopStack := (\<lambda>_. 0)(0 := 7)\<rparr>) = Some s' \<and>
         instPtr s' = 7 \<and> loopStackPtr s' = 0) \<and>
   (\<exists>s1 s2. execute_and_advance 2 0 OP_LOOP (blank_state\<lparr>reg := 1, instPtr := 7\<rparr>) = Some s1 \<and>
         instPtr s1 = 8 \<and> loopStack s1 0 = 7 \<and>
         execute_and_advance 2 0 OP_REP s1 = Some s2 \<and> instPtr s2 = 7) \<and>
   (\<exists>s'. step 2 0 ((two_cells (blank_cell\<lparr>energy := 10, genome := (\<lambda>_. 10)\<rparr>) blank_cell)
                      \<lparr>falseLoopDepth := 1\<rparr>) = Some s' \<and>
         energy (pond s' (2, 0)) = 9 \<and> falseLoopDepth s' = 0 \<and> instPtr s' = 1 \<and> reg s' = 0 \<and>
         ptr_mem s' = 0 \<and> ram (pond s' (2, 0)) = (\<lambda>_. 0)) \<and>
   (fst (getRandom (rng mutating_skip)) AND 0xffffffff) < MUTATION_RATE \<and>
   (\<exists>s'. step 2 0 mutating_skip = Some s' \<and>
         energy (pond s' (2, 0)) = 9 \<and> falseLoopDepth s' = 1 \<and> instPtr s' = 1 \<and> reg s' = 171 \<and>
         ptr_mem s' = 0 \<and> ram (pond s' (2, 0)) = (\<lambda>_. 0))"
proof -
  let ?k = "(two_cells (blank_cell\<lparr>energy := 10, genome := (\<lambda>_. 10)\<rparr>) blank_cell)\<lparr>falseLoopDepth := 1\<rparr>"
  have r: "getRandom (rng ?k) = (0x400091, \<lparr>mt = (\<lambda>_. 0)(3 := 1), mti = 4\<rparr>)"
    by simp
  have i: "instPtr ?k = 0" "falseLoopDepth ?k = 1"
    "genome (pond ?k (2, 0)) 0 = 10"
    by (simp_all add: two_cells_def blank_state_def EXEC_START_INST_def)
  have f: "falseLoopDepth ?k \<noteq> 0 \<and> unat (instPtr ?k) < POND_DEPTH \<and>
           \<not> (fst (getRandom (rng ?k)) AND 0xffffffff) < MUTATION_RATE"
    unfolding r i by (simp add: POND_DEPTH_def MUTATION_RATE_def)
  have "step 2 0 ?k =
          Some (advance ((cell_upd (2, 0) (\<lambda>k. k\<lparr>energy := energy k - 1\<rparr>)
                           (?k\<lparr>rng := \<lparr>mt = (\<lambda>_. 0)(3 := 1), mti = 4\<rparr>\<rparr>))\<lparr>falseLoopDepth := 0\<rparr>))"
    unfolding LOOP_REP_control [of ?k 2 0 OP_INC, THEN conjunct2, THEN conjunct2, THEN conjunct2,
                                THEN conjunct2, THEN conjunct1, rule_format, OF f]
    unfolding r i unat_0 by (simp add: op_defs)
  then have 7: "\<exists>s'. step 2 0 ?k = Some s' \<and>
         energy (pond s' (2, 0)) = 9 \<and> falseLoopDepth s' = 0 \<and> instPtr s' = 1 \<and> reg s' = 0 \<and>
         ptr_mem s' = 0 \<and> ram (pond s' (2, 0)) = (\<lambda>_. 0)"
    by (simp add: advance_def Let_def POND_DEPTH_def two_cells_def blank_state_def
                  EXEC_START_INST_def blank_cell_def)
  have m: "(fst (getRandom (rng mutating_skip)) AND 0xffffffff) < MUTATION_RATE"
    by (simp add: getRandom_mutating_skip MUTATION_RATE_def)
  have h: "falseLoopDepth mutating_skip \<noteq> 0 \<and> unat (instPtr mutating_skip) < POND_DEPTH \<and>
           (fst (getRandom (rng mutating_skip)) AND 0xffffffff) < MUTATION_RATE"
    using m by (simp add: mutating_skip_sel POND_DEPTH_def)
  have "step 2 0 mutating_skip =
          Some (advance (cell_upd (2, 0) (\<lambda>k. k\<lparr>energy := energy k - 1\<rparr>)
                          (mutating_skip\<lparr>rng := \<lparr>mt = (\<lambda>_. 0)(3 := 131114), mti = 4\<rparr>,
                                         reg := 171\<rparr>)
                        \<lparr>falseLoopDepth := 1\<rparr>))"
    unfolding LOOP_REP_control [of mutating_skip 2 0 OP_INC, THEN conjunct2, THEN conjunct2,
                                THEN conjunct2, THEN conjunct2, THEN conjunct2, rule_format, OF h]
    by (simp add: getRandom_mutating_skip mutating_skip_sel op_defs REG_MASK_def)
  then have 8: "\<exists>s'. step 2 0 mutating_skip = Some s' \<and>
         energy (pond s' (2, 0)) = 9 \<and> falseLoopDepth s' = 1 \<and> instPtr s' = 1 \<and> reg s' = 171 \<and>
         ptr_mem s' = 0 \<and> ram (pond s' (2, 0)) = (\<lambda>_. 0)"
    by (simp add: advance_def Let_def POND_DEPTH_def mutating_skip_def two_cells_def
                  blank_state_def EXEC_START_INST_def blank_cell_def)
  let ?b = "blank_state\<lparr>falseLoopDepth := 1\<rparr>"
  let ?r = "blank_state\<lparr>reg := 1, instPtr := 9, loopStackPtr := 1, loopStack := (\<lambda>_. 0)(0 := 7)\<rparr>"
  let ?l = "blank_state\<lparr>reg := 1, instPtr := 7\<rparr>"
  from LOOP_REP_control [of blank_state 2 0 OP_INC]
  have "\<exists>s'. execute_and_advance 2 0 OP_LOOP blank_state = Some s' \<and>
         s' = (advance (blank_state\<lparr>falseLoopDepth := 1\<rparr>))\<lparr>statCounters := statCounters s'\<rparr>"
    by simp
  then obtain s' where "execute_and_advance 2 0 OP_LOOP blank_state = Some s'"
    and e: "s' = (advance (blank_state\<lparr>falseLoopDepth := 1\<rparr>))\<lparr>statCounters := statCounters s'\<rparr>"
    by blast
  moreover have "falseLoopDepth s' = 1 \<and> instPtr s' = 1 \<and> loopStackPtr s' = 0"
    by (subst e, simp add: advance_def POND_DEPTH_def)+
  ultimately have 1: "\<exists>s'. execute_and_advance 2 0 OP_LOOP blank_state = Some s' \<and>
         falseLoopDepth s' = 1 \<and> instPtr s' = 1 \<and> loopStackPtr s' = 0"
    by blast
  have adv: "advance ?b = blank_state\<lparr>falseLoopDepth := 1, instPtr := 1\<rparr>"
    by (simp add: advance_def POND_DEPTH_def)
  from LOOP_REP_control [of ?b 2 0 OP_INC]
  have 2: "execute_and_advance 2 0 OP_INC ?b = Some (blank_state\<lparr>falseLoopDepth := 1, instPtr := 1\<rparr>)"
    by (simp add: op_defs advance_def POND_DEPTH_def)
  from LOOP_REP_control [of ?b 2 0 OP_LOOP]
  have 3: "execute_and_advance 2 0 OP_LOOP ?b = Some (blank_state\<lparr>falseLoopDepth := 2, instPtr := 1\<rparr>)"
    by (simp add: op_defs advance_def POND_DEPTH_def)
  from LOOP_REP_control [of ?b 2 0 OP_REP]
  have 4: "execute_and_advance 2 0 OP_REP ?b = Some (blank_state\<lparr>falseLoopDepth := 0, instPtr := 1\<rparr>)"
    by (simp add: op_defs advance_def POND_DEPTH_def)
  from LOOP_REP_control [of ?r 2 0 OP_INC]
  have "\<exists>s'. execute_and_advance 2 0 OP_REP ?r = Some s' \<and>
            s' = ?r\<lparr>loopStackPtr := loopStackPtr ?r - 1,
                   instPtr := loopStack ?r (unat (loopStackPtr ?r - 1)),
                   statCounters := statCounters s'\<rparr>"
    by (simp add: POND_DEPTH_def)
  then obtain t where "execute_and_advance 2 0 OP_REP ?r = Some t"
    and e: "t = ?r\<lparr>loopStackPtr := loopStackPtr ?r - 1,
                   instPtr := loopStack ?r (unat (loopStackPtr ?r - 1)),
                   statCounters := statCounters t\<rparr>"
    by blast
  moreover have "instPtr t = 7 \<and> loopStackPtr t = 0"
    by (subst e, simp)+
  ultimately have 5: "\<exists>s'. execute_and_advance 2 0 OP_REP ?r = Some s' \<and> instPtr s' = 7 \<and> loopStackPtr s' = 0"
    by blast
  from LOOP_REP_control [of ?l 2 0 OP_INC]
  obtain s1 s2 where "execute_and_advance 2 0 OP_LOOP ?l = Some s1"
    and e: "s1 = (advance (?l\<lparr>loopStack := (loopStack ?l)(unat (loopStackPtr ?l) := instPtr ?l),
                             loopStackPtr := loopStackPtr ?l + 1\<rparr>))\<lparr>statCounters := statCounters s1\<rparr>"
    and "execute_and_advance 2 0 OP_REP s1 = Some s2" and "instPtr s2 = instPtr ?l"
    by (auto simp: POND_DEPTH_def)
  moreover have "instPtr s1 = 8 \<and> loopStack s1 0 = 7"
    by (subst e, simp add: advance_def POND_DEPTH_def)+
  ultimately have 6: "\<exists>s1 s2. execute_and_advance 2 0 OP_LOOP ?l = Some s1 \<and>
         instPtr s1 = 8 \<and> loopStack s1 0 = 7 \<and>
         execute_and_advance 2 0 OP_REP s1 = Some s2 \<and> instPtr s2 = 7"
    by auto
  from 1 2 3 4 5 6 7 m 8 show ?thesis by blast
qed

subsection \<open>Closure of the instruction set\<close>

lemma and_mask_less:
  "(w :: uintptr) AND 31 < 32" "(w :: uintptr) AND 255 < 256"
proof -
  have "w AND 31 \<le> 31" "w AND 255 \<le> 255" by (rule word_and_le1)+
  then show "w AND 31 < 32" "w AND 255 < 256" by (simp_all add: word_le_nat_alt word_less_nat_alt)
qed

lemma ucast8_less: "(ucast (v :: uint8) :: uintptr) < 256"
proof -
  have "unat v < 256" using unsigned_less [of v, where 'a = nat] by simp
  then have "unat (ucast v :: uintptr) = unat v" by (simp add: unsigned_ucast_eq take_bit_eq_mod)
  with \<open>unat v < 256\<close> show ?thesis by (simp add: word_less_nat_alt)
qed

lemma unat_and_7: "unat ((w :: uintptr) AND 7) < 8"
proof -
  have "w AND 7 \<le> 7" by (rule word_and_le1)
  then show ?thesis by (simp add: word_le_nat_alt)
qed

lemma reg_less_depth: "(r :: uintptr) < 256 \<Longrightarrow> unat r < POND_DEPTH"
  by (simp add: word_less_nat_alt POND_DEPTH_def)

lemma fwd_less: "unat (if POND_DEPTH \<le> unat (p + 1) then 0 else p + 1 :: uintptr) < POND_DEPTH"
  by (simp add: POND_DEPTH_def)

lemma back_less:
  "unat (p :: uintptr) < POND_DEPTH \<Longrightarrow> p \<noteq> 0 \<Longrightarrow> unat (p - 1) < POND_DEPTH"
  using unat_pred_less [of p POND_DEPTH] by simp

lemma back_wrap:
  "unat (word_of_nat (POND_DEPTH - 1) :: uintptr) < POND_DEPTH"
  "unat (word_of_nat POND_DEPTH - 1 :: uintptr) < POND_DEPTH"
  by (simp_all add: POND_DEPTH_def)

lemma push_le:
  "unat (p :: uintptr) < POND_DEPTH \<Longrightarrow> unat (p + 1) \<le> POND_DEPTH"
  by (simp add: unat_word_ariths POND_DEPTH_def)

lemma pop_le:
  "(p :: uintptr) \<noteq> 0 \<Longrightarrow> unat p \<le> POND_DEPTH \<Longrightarrow> unat (p - 1) \<le> POND_DEPTH"
  using unat_pred_less [of p POND_DEPTH] by simp

lemmas vm_simps = and_mask_less ucast8_less reg_less_depth fwd_less back_less back_wrap push_le pop_le
  unat_pred_less rd_def wr_def

lemma ok_STOP:
  "vm_ok x y s \<Longrightarrow> \<exists>c s'. dispatch x y OP_STOP s = Some (c, s') \<and> vm_ok x y s'"
  by (auto simp: dispatch_def op_defs vm_ok_def Let_def draw_eq vm_simps
                 INST_MASK_def REG_MASK_def MEM_MASK_def EXEC_START_INST_def)

lemma ok_INC:
  "vm_ok x y s \<Longrightarrow> \<exists>c s'. dispatch x y OP_INC s = Some (c, s') \<and> vm_ok x y s'"
  by (auto simp: dispatch_def op_defs vm_ok_def Let_def draw_eq vm_simps
                 INST_MASK_def REG_MASK_def MEM_MASK_def EXEC_START_INST_def)

lemma ok_DEC:
  "vm_ok x y s \<Longrightarrow> \<exists>c s'. dispatch x y OP_DEC s = Some (c, s') \<and> vm_ok x y s'"
  by (auto simp: dispatch_def op_defs vm_ok_def Let_def draw_eq vm_simps
                 INST_MASK_def REG_MASK_def MEM_MASK_def EXEC_START_INST_def)

lemma ok_ZERO:
  "vm_ok x y s \<Longrightarrow> \<exists>c s'. dispatch x y OP_ZERO s = Some (c, s') \<and> vm_ok x y s'"
  by (auto simp: dispatch_def op_defs vm_ok_def Let_def draw_eq vm_simps
                 INST_MASK_def REG_MASK_def MEM_MASK_def EXEC_START_INST_def)

lemma ok_SETP:
  "vm_ok x y s \<Longrightarrow> \<exists>c s'. dispatch x y OP_SETP s = Some (c, s') \<and> vm_ok x y s'"
  by (auto simp: dispatch_def op_defs vm_ok_def Let_def draw_eq vm_simps
                 INST_MASK_def REG_MASK_def MEM_MASK_def EXEC_START_INST_def)

lemma ok_NEXTB:
  "vm_ok x y s \<Longrightarrow> \<exists>c s'. dispatch x y OP_NEXTB s = Some (c, s') \<and> vm_ok x y s'"
  by (auto simp: dispatch_def op_defs vm_ok_def Let_def draw_eq vm_simps
                 INST_MASK_def REG_MASK_def MEM_MASK_def EXEC_START_INST_def)

lemma ok_PREVB:
  "vm_ok x y s \<Longrightarrow> \<exists>c s'. dispatch x y OP_PREVB s = Some (c, s') \<and> vm_ok x y s'"
  by (auto simp: dispatch_def op_defs vm_ok_def Let_def draw_eq vm_simps
                 INST_MASK_def REG_MASK_def MEM_MASK_def EXEC_START_INST_def)

lemma ok_NEXTM:
  "vm_ok x y s \<Longrightarrow> \<exists>c s'. dispatch x y OP_NEXTM s = Some (c, s') \<and> vm_ok x y s'"
  by (auto simp: dispatch_def op_defs vm_ok_def Let_def draw_eq vm_simps
                 INST_MASK_def REG_MASK_def MEM_MASK_def EXEC_START_INST_def)

lemma ok_PREVM:
  "vm_ok x y s \<Longrightarrow> \<exists>c s'. dispatch x y OP_PREVM s = Some (c, s') \<and> vm_ok x y s'"
  by (auto simp: dispatch_def op_defs vm_ok_def Let_def draw_eq vm_simps
                 INST_MASK_def REG_MASK_def MEM_MASK_def EXEC_START_INST_def)

lemma ok_SHL:
  "vm_ok x y s \<Longrightarrow> \<exists>c s'. dispatch x y OP_SHL s = Some (c, s') \<and> vm_ok x y s'"
  by (auto simp: dispatch_def op_defs vm_ok_def Let_def draw_eq vm_simps
                 INST_MASK_def REG_MASK_def MEM_MASK_def EXEC_START_INST_def)

lemma ok_SHR:
  "vm_ok x y s \<Longrightarrow> \<exists>c s'. dispatch x y OP_SHR s = Some (c, s') \<and> vm_ok x y s'"
  by (auto simp: dispatch_def op_defs vm_ok_def Let_def draw_eq vm_simps
                 INST_MASK_def REG_MASK_def MEM_MASK_def EXEC_START_INST_def)

lemma ok_SETMP:
  "vm_ok x y s \<Longrightarrow> \<exists>c s'. dispatch x y OP_SETMP s = Some (c, s') \<and> vm_ok x y s'"
  by (auto simp: dispatch_def op_defs vm_ok_def Let_def draw_eq vm_simps
                 INST_MASK_def REG_MASK_def MEM_MASK_def EXEC_START_INST_def)

lemma ok_RAND:
  "vm_ok x y s \<Longrightarrow> \<exists>c s'. dispatch x y OP_RAND s = Some (c, s') \<and> vm_ok x y s'"
  by (auto simp: dispatch_def op_defs vm_ok_def Let_def draw_eq vm_simps
                 INST_MASK_def REG_MASK_def MEM_MASK_def EXEC_START_INST_def)

lemma ok_FWD:
  "vm_ok x y s \<Longrightarrow> \<exists>c s'. dispatch x y OP_FWD s = Some (c, s') \<and> vm_ok x y s'"
  by (auto simp: dispatch_def op_defs vm_ok_def Let_def draw_eq vm_simps
                 INST_MASK_def REG_MASK_def MEM_MASK_def EXEC_START_INST_def)

lemma ok_BACK:
  "vm_ok x y s \<Longrightarrow> \<exists>c s'. dispatch x y OP_BACK s = Some (c, s') \<and> vm_ok x y s'"
  by (auto simp: dispatch_def op_defs vm_ok_def Let_def draw_eq vm_simps
                 INST_MASK_def REG_MASK_def MEM_MASK_def EXEC_START_INST_def)

lemma ok_READG:
  "vm_ok x y s \<Longrightarrow> \<exists>c s'. dispatch x y OP_READG s = Some (c, s') \<and> vm_ok x y s'"
  by (auto simp: dispatch_def op_defs vm_ok_def Let_def draw_eq vm_simps
                 INST_MASK_def REG_MASK_def MEM_MASK_def EXEC_START_INST_def)

lemma ok_WRITEG:
  "vm_ok x y s \<Longrightarrow> \<exists>c s'. dispatch x y OP_WRITEG s = Some (c, s') \<and> vm_ok x y s'"
  by (auto simp: dispatch_def op_defs vm_ok_def Let_def draw_eq vm_simps
                 INST_MASK_def REG_MASK_def MEM_MASK_def EXEC_START_INST_def)

lemma ok_READO:
  "vm_ok x y s \<Longrightarrow> \<exists>c s'. dispatch x y OP_READO s = Some (c, s') \<and> vm_ok x y s'"
  by (auto simp: dispatch_def op_defs vm_ok_def Let_def draw_eq vm_simps
                 INST_MASK_def REG_MASK_def MEM_MASK_def EXEC_START_INST_def)

lemma ok_WRITEO:
  "vm_ok x y s \<Longrightarrow> \<exists>c s'. dispatch x y OP_WRITEO s = Some (c, s') \<and> vm_ok x y s'"
  by (auto simp: dispatch_def op_defs vm_ok_def Let_def draw_eq vm_simps
                 INST_MASK_def REG_MASK_def MEM_MASK_def EXEC_START_INST_def)

lemma ok_LOOP:
  "vm_ok x y s \<Longrightarrow> \<exists>c s'. dispatch x y OP_LOOP s = Some (c, s') \<and> vm_ok x y s'"
  by (auto simp: dispatch_def op_defs vm_ok_def Let_def draw_eq vm_simps
                 INST_MASK_def REG_MASK_def MEM_MASK_def EXEC_START_INST_def)

lemma ok_REP:
  "vm_ok x y s \<Longrightarrow> \<exists>c s'. dispatch x y OP_REP s = Some (c, s') \<and> vm_ok x y s'"
  by (auto simp: dispatch_def op_defs vm_ok_def Let_def draw_eq vm_simps
                 INST_MASK_def REG_MASK_def MEM_MASK_def EXEC_START_INST_def)

lemma ok_XCHG:
  "vm_ok x y s \<Longrightarrow> \<exists>c s'. dispatch x y OP_XCHG s = Some (c, s') \<and> vm_ok x y s'"
  by (auto simp: dispatch_def op_defs vm_ok_def Let_def draw_eq vm_simps
                 INST_MASK_def REG_MASK_def MEM_MASK_def EXEC_START_INST_def)


lemma read_mem_ok:
  assumes "vm_ok x y s"
  shows "\<exists>v s'. read_mem (x, y) x y a s = Some (v, s') \<and> pond s' = pond s \<and>
           ptr_mem s' = ptr_mem s \<and> reg s' = reg s \<and> vm_ok x y s'"
proof -
  from assms obtain n where n: "getNeighbor POND_SIZE_X POND_SIZE_Y x y (facing (pond s (x, y))) = Some n"
    using getNeighbor_total [of x y "facing (pond s (x, y))"] by (auto simp: vm_ok_def)
  have "unat (a AND 7) < 16" "8 + unat (a AND 7) < 16" using unat_and_7 [of a] by simp_all
  with assms show ?thesis
    by (simp add: read_mem_def Let_def rd_def RAM_SIZE_def n vm_ok_def)
qed

lemma read_mem_value:
  assumes "pond s' = pond s"
  shows "map_option fst (read_mem c x y a s') = map_option fst (read_mem c x y a s)"
  using assms by (simp add: read_mem_def Let_def map_option_bind comp_def cong: if_cong)

lemma write_mem_ok:
  assumes "vm_ok x y s"
  shows "\<exists>s'. write_mem (x, y) x y a v s = Some s' \<and> vm_ok x y s'"
proof -
  from assms obtain n where n: "getNeighbor POND_SIZE_X POND_SIZE_Y x y (facing (pond s (x, y))) = Some n"
    using getNeighbor_total [of x y "facing (pond s (x, y))"] by (auto simp: vm_ok_def)
  have ne: "n \<noteq> (x, y)" using n by (rule getNeighbor_not_self)
  obtain ok where ok: "accessAllowed n (logo (pond s (x, y))) 1 (stat (memInputWrites_update incr) s) =
      Some (ok, (stat (memInputWrites_update incr) s)\<lparr>rng := snd (getRandom (rng s))\<rparr>)"
    using accessAllowed_total [of n "logo (pond s (x, y))" 1 "stat (memInputWrites_update incr) s"]
    by auto
  have i: "unat (a AND 7) < 16" "8 + unat (a AND 7) < 16" using unat_and_7 [of a] by simp_all
  from assms ne i show ?thesis
    by (simp add: write_mem_def Let_def wr_def RAM_SIZE_def n ok vm_ok_def and_mask_less
                  LOGO_MASK_def FACING_MASK_def)
qed

lemma ok_READM:
  assumes "vm_ok x y s"
  shows "\<exists>c s'. dispatch x y OP_READM s = Some (c, s') \<and> vm_ok x y s'"
proof -
  from read_mem_ok [OF assms, of "ptr_mem s"] obtain v s1
    where r: "read_mem (x, y) x y (ptr_mem s) s = Some (v, s1)" and "vm_ok x y s1"
    by blast
  then show ?thesis
    by (auto simp: dispatch_def op_defs vm_ok_def ucast8_less and_mask_less REG_MASK_def)
qed

lemma ok_ADD:
  assumes "vm_ok x y s"
  shows "\<exists>c s'. dispatch x y OP_ADD s = Some (c, s') \<and> vm_ok x y s'"
proof -
  from read_mem_ok [OF assms, of "ptr_mem s"] obtain v s1
    where r: "read_mem (x, y) x y (ptr_mem s) s = Some (v, s1)" and "vm_ok x y s1"
    by blast
  then show ?thesis
    by (auto simp: dispatch_def op_defs vm_ok_def ucast8_less and_mask_less REG_MASK_def)
qed

lemma ok_SUB:
  assumes "vm_ok x y s"
  shows "\<exists>c s'. dispatch x y OP_SUB s = Some (c, s') \<and> vm_ok x y s'"
proof -
  from read_mem_ok [OF assms, of "ptr_mem s"] obtain v s1
    where r: "read_mem (x, y) x y (ptr_mem s) s = Some (v, s1)" and "vm_ok x y s1"
    by blast
  then show ?thesis
    by (auto simp: dispatch_def op_defs vm_ok_def ucast8_less and_mask_less REG_MASK_def)
qed

lemma ok_MUL:
  assumes "vm_ok x y s"
  shows "\<exists>c s'. dispatch x y OP_MUL s = Some (c, s') \<and> vm_ok x y s'"
proof -
  from read_mem_ok [OF assms, of "ptr_mem s"] obtain v s1
    where r: "read_mem (x, y) x y (ptr_mem s) s = Some (v, s1)" and "vm_ok x y s1"
    by blast
  then show ?thesis
    by (auto simp: dispatch_def op_defs vm_ok_def ucast8_less and_mask_less REG_MASK_def)
qed

lemma ok_DIV:
  assumes "vm_ok x y s"
  shows "\<exists>c s'. dispatch x y OP_DIV s = Some (c, s') \<and> vm_ok x y s'"
proof -
  from read_mem_ok [OF assms, of "ptr_mem s"] obtain v s1
    where r: "read_mem (x, y) x y (ptr_mem s) s = Some (v, s1)" and p: "pond s1 = pond s"
      and m: "ptr_mem s1 = ptr_mem s" and ok1: "vm_ok x y s1"
    by blast
  from read_mem_ok [OF ok1, of "ptr_mem s1"] obtain d s2
    where r2: "read_mem (x, y) x y (ptr_mem s1) s1 = Some (d, s2)" and ok2: "vm_ok x y s2"
    by blast
  from read_mem_value [OF p, of "(x, y)" x y "ptr_mem s"] r r2 m have "d = v" by simp
  with r r2 ok1 ok2 show ?thesis
    by (auto simp: dispatch_def op_defs vm_ok_def and_mask_less REG_MASK_def)
qed

lemma ok_WRITEM:
  assumes "vm_ok x y s"
  shows "\<exists>c s'. dispatch x y OP_WRITEM s = Some (c, s') \<and> vm_ok x y s'"
  using write_mem_ok [OF assms, of "ptr_mem s" "reg s"]
  by (auto simp: dispatch_def op_defs)

lemma ok_CLEARM:
  assumes "vm_ok x y s"
  shows "\<exists>c s'. dispatch x y OP_CLEARM s = Some (c, s') \<and> vm_ok x y s'"
proof -
  have "vm_ok x y (for_upto 0 RAM_SIZE (\<lambda>i. cell_upd (x, y) (\<lambda>k. k\<lparr>ram := (ram k)(i := 0)\<rparr>)) s)"
    using assms by (rule for_upto_inv) (simp add: vm_ok_def)
  then show ?thesis by (auto simp: dispatch_def op_defs)
qed

lemma ok_TURN:
  assumes "vm_ok x y s"
  shows "\<exists>c s'. dispatch x y OP_TURN s = Some (c, s') \<and> vm_ok x y s'"
proof -
  from assms obtain n where n: "getNeighbor POND_SIZE_X POND_SIZE_Y x y (facing (pond s (x, y))) = Some n"
    using getNeighbor_total [of x y "facing (pond s (x, y))"] by (auto simp: vm_ok_def)
  obtain ok where ok: "accessAllowed n (reg s) COMBINE_SENSE s = Some (ok, s\<lparr>rng := snd (getRandom (rng s))\<rparr>)"
    using accessAllowed_total [of n "reg s" COMBINE_SENSE s] by auto
  from assms show ?thesis
    by (auto simp: dispatch_def op_defs n ok draw_eq rd_def vm_ok_def ucast8_less Let_def)
qed

lemma ok_KILL:
  assumes "vm_ok x y s"
  shows "\<exists>c s'. dispatch x y OP_KILL s = Some (c, s') \<and> vm_ok x y s'"
proof -
  from assms obtain n where n: "getNeighbor POND_SIZE_X POND_SIZE_Y x y (facing (pond s (x, y))) = Some n"
    using getNeighbor_total [of x y "facing (pond s (x, y))"] by (auto simp: vm_ok_def)
  have ne: "n \<noteq> (x, y)" using n by (rule getNeighbor_not_self)
  obtain ok where ok: "accessAllowed n (reg s) 0 s = Some (ok, s\<lparr>rng := snd (getRandom (rng s))\<rparr>)"
    using accessAllowed_total [of n "reg s" 0 s] by auto
  from assms ne show ?thesis
    by (auto simp: dispatch_KILL n ok fill_genome Let_def vm_ok_def)
qed

lemma ok_SHARE:
  assumes "vm_ok x y s"
  shows "\<exists>c s'. dispatch x y OP_SHARE s = Some (c, s') \<and> vm_ok x y s'"
proof -
  from assms obtain n where n: "getNeighbor POND_SIZE_X POND_SIZE_Y x y (facing (pond s (x, y))) = Some n"
    using getNeighbor_total [of x y "facing (pond s (x, y))"] by (auto simp: vm_ok_def)
  have ne: "n \<noteq> (x, y)" using n by (rule getNeighbor_not_self)
  obtain ok where ok: "accessAllowed n (reg s) 1 s = Some (ok, s\<lparr>rng := snd (getRandom (rng s))\<rparr>)"
    using accessAllowed_total [of n "reg s" 1 s] by auto
  from assms ne show ?thesis
    by (auto simp: dispatch_SHARE n ok Let_def vm_ok_def)
qed

lemma ok_other:
  assumes "vm_ok x y s"
    and "inst \<notin> {OP_STOP, OP_FWD, OP_BACK, OP_INC, OP_DEC, OP_READG, OP_WRITEG, OP_READO,
                  OP_WRITEO, OP_LOOP, OP_REP, OP_TURN, OP_XCHG, OP_KILL, OP_SHARE, OP_ZERO,
                  OP_SETP, OP_NEXTB, OP_PREVB, OP_NEXTM, OP_PREVM, OP_READM, OP_WRITEM,
                  OP_CLEARM, OP_ADD, OP_SUB, OP_MUL, OP_DIV, OP_SHL, OP_SHR, OP_SETMP, OP_RAND}"
  shows "\<exists>c s'. dispatch x y inst s = Some (c, s') \<and> vm_ok x y s'"
  using assms by (auto simp: dispatch_def)

lemma dispatch_ok:
  assumes "vm_ok x y s"
  shows "\<exists>c s'. dispatch x y inst s = Some (c, s') \<and> vm_ok x y s'"
proof (cases "inst \<in> {OP_STOP, OP_FWD, OP_BACK, OP_INC, OP_DEC, OP_READG, OP_WRITEG, OP_READO,
                  OP_WRITEO, OP_LOOP, OP_REP, OP_TURN, OP_XCHG, OP_KILL, OP_SHARE, OP_ZERO,
                  OP_SETP, OP_NEXTB, OP_PREVB, OP_NEXTM, OP_PREVM, OP_READM, OP_WRITEM,
                  OP_CLEARM, OP_ADD, OP_SUB, OP_MUL, OP_DIV, OP_SHL, OP_SHR, OP_SETMP, OP_RAND}")
  case False
  with assms show ?thesis by (rule ok_other)
next
  case True
  then show ?thesis
    using ok_STOP [OF assms] ok_FWD [OF assms] ok_BACK [OF assms] ok_INC [OF assms]
      ok_DEC [OF assms] ok_READG [OF assms] ok_WRITEG [OF assms] ok_READO [OF assms]
      ok_WRITEO [OF assms] ok_LOOP [OF assms] ok_REP [OF assms] ok_TURN [OF assms]
      ok_XCHG [OF assms] ok_KILL [OF assms] ok_SHARE [OF assms] ok_ZERO [OF assms]
      ok_SETP [OF assms] ok_NEXTB [OF assms] ok_PREVB [OF assms] ok_NEXTM [OF assms]
      ok_PREVM [OF assms] ok_READM [OF assms] ok_WRITEM [OF assms] ok_CLEARM [OF assms]
      ok_ADD [OF assms] ok_SUB [OF assms] ok_MUL [OF assms] ok_DIV [OF assms]
      ok_SHL [OF assms] ok_SHR [OF assms] ok_SETMP [OF assms] ok_RAND [OF assms]
    by (elim insertE emptyE) simp_all
qed

text \<open>
  C7. Let the cell at \<open>(x, y)\<close> lie in the pond and store a 5-bit \<open>facing\<close>, and let
  the machine state be representable: \<open>reg\<close> an 8-bit value, the I/O pointer below
  \<open>POND_DEPTH\<close>, the memory pointer a 5-bit value, the loop stack pointer at most
  \<open>POND_DEPTH\<close>. Then for every 5-bit instruction the execution of the instruction
  completes: no index into the genome, the output buffer, the RAM, the loop
  stack, \<open>dirmap\<close>, the pond or the execution counters leaves its array, and no
  division by zero occurs. The state reached is representable again; in
  particular the I/O pointer that \<open>SETP\<close> loads from \<open>reg\<close> is below \<open>POND_DEPTH\<close>.
\<close>

theorem execute_in_bounds:
  assumes "x < POND_SIZE_X" "y < POND_SIZE_Y" "facing (pond s (x, y)) < 32"
    and "reg s < 256" "unat (ptr_ioPtr s) < POND_DEPTH" "ptr_mem s < 32"
    and "unat (loopStackPtr s) \<le> POND_DEPTH"
    and "inst < 32"
  shows "\<exists>c s'. execute x y inst s = Some (c, s') \<and>
           reg s' < 256 \<and> unat (ptr_ioPtr s') < POND_DEPTH \<and> ptr_mem s' < 32 \<and>
           unat (loopStackPtr s') \<le> POND_DEPTH \<and> facing (pond s' (x, y)) < 32"
proof -
  from assms have ok: "vm_ok x y s" by (simp add: vm_ok_def)
  show ?thesis
  proof (cases "falseLoopDepth s = 0")
    case False
    with ok show ?thesis by (auto simp: execute_skip vm_ok_def)
  next
    case True
    from execute_counted [OF True assms(8), of x y] obtain f
      where e: "execute x y inst s = dispatch x y inst (stat f s)" by blast
    from ok have "vm_ok x y (stat f s)" by (simp add: vm_ok_def)
    from dispatch_ok [OF this, of inst] e show ?thesis by (auto simp: vm_ok_def)
  qed
qed

text \<open>C7 on \<open>SETP\<close> with \<open>reg = 255\<close>, the largest register value.\<close>

theorem execute_in_bounds_witness:
  "2 < POND_SIZE_X \<and> 0 < POND_SIZE_Y \<and>
   facing (pond ((two_cells blank_cell blank_cell)\<lparr>reg := 255\<rparr>) (2, 0)) < 32 \<and>
   reg ((two_cells blank_cell blank_cell)\<lparr>reg := 255\<rparr>) < 256 \<and>
   unat (ptr_ioPtr ((two_cells blank_cell blank_cell)\<lparr>reg := 255\<rparr>)) < POND_DEPTH \<and>
   ptr_mem ((two_cells blank_cell blank_cell)\<lparr>reg := 255\<rparr>) < 32 \<and>
   unat (loopStackPtr ((two_cells blank_cell blank_cell)\<lparr>reg := 255\<rparr>)) \<le> POND_DEPTH \<and>
   OP_SETP < 32 \<and>
   (\<exists>c s'. execute 2 0 OP_SETP ((two_cells blank_cell blank_cell)\<lparr>reg := 255\<rparr>) = Some (c, s') \<and>
      reg s' < 256 \<and> unat (ptr_ioPtr s') < POND_DEPTH \<and> ptr_mem s' < 32 \<and>
      unat (loopStackPtr s') \<le> POND_DEPTH \<and> facing (pond s' (2, 0)) < 32)"
proof -
  let ?s = "(two_cells blank_cell blank_cell)\<lparr>reg := 255\<rparr>"
  have h: "2 < POND_SIZE_X" "0 < POND_SIZE_Y" "facing (pond ?s (2, 0)) < 32" "reg ?s < 256"
    "unat (ptr_ioPtr ?s) < POND_DEPTH" "ptr_mem ?s < 32" "unat (loopStackPtr ?s) \<le> POND_DEPTH"
    "OP_SETP < 32"
    by (simp_all add: POND_SIZE_X_def POND_SIZE_Y_def POND_DEPTH_def OP_SETP_def two_cells_def
                      blank_state_def)
  from execute_in_bounds [OF h] h show ?thesis by blast
qed


subsection \<open>Cell identifiers\<close>

text \<open>The loops that fill a genome or a RAM keep the cell counter and the
  identity fields of every cell.\<close>

lemma loop_keeps_ids:
  fixes a :: state
  assumes "\<And>j t. cellIdCounter (body j t) = cellIdCounter t \<and>
             (\<forall>q. ID (pond (body j t) q) = ID (pond t q) \<and>
                  parentID (pond (body j t) q) = parentID (pond t q) \<and>
                  lineage (pond (body j t) q) = lineage (pond t q) \<and>
                  generation (pond (body j t) q) = generation (pond t q))"
  shows "cellIdCounter (for_upto i n body a) = cellIdCounter a \<and>
         (\<forall>q. ID (pond (for_upto i n body a) q) = ID (pond a q) \<and>
              parentID (pond (for_upto i n body a) q) = parentID (pond a q) \<and>
              lineage (pond (for_upto i n body a) q) = lineage (pond a q) \<and>
              generation (pond (for_upto i n body a) q) = generation (pond a q))"
proof (rule for_upto_inv [where P = "\<lambda>t. cellIdCounter t = cellIdCounter a \<and>
         (\<forall>q. ID (pond t q) = ID (pond a q) \<and> parentID (pond t q) = parentID (pond a q) \<and>
              lineage (pond t q) = lineage (pond a q) \<and>
              generation (pond t q) = generation (pond a q))"])
  show "cellIdCounter a = cellIdCounter a \<and>
         (\<forall>q. ID (pond a q) = ID (pond a q) \<and> parentID (pond a q) = parentID (pond a q) \<and>
              lineage (pond a q) = lineage (pond a q) \<and>
              generation (pond a q) = generation (pond a q))" by simp
next
  fix j and b :: state
  assume "cellIdCounter b = cellIdCounter a \<and>
         (\<forall>q. ID (pond b q) = ID (pond a q) \<and> parentID (pond b q) = parentID (pond a q) \<and>
              lineage (pond b q) = lineage (pond a q) \<and>
              generation (pond b q) = generation (pond a q))"
  with assms [of j b] show "cellIdCounter (body j b) = cellIdCounter a \<and>
         (\<forall>q. ID (pond (body j b) q) = ID (pond a q) \<and>
              parentID (pond (body j b) q) = parentID (pond a q) \<and>
              lineage (pond (body j b) q) = lineage (pond a q) \<and>
              generation (pond (body j b) q) = generation (pond a q))"
    by simp
qed

lemma draw_sel [simp]:
  "pond (snd (draw s)) = pond s"
  "cellIdCounter (snd (draw s)) = cellIdCounter s"
  "outputBuf (snd (draw s)) = outputBuf s"
  by (simp_all add: draw_eq)

lemma copy_genome_keeps_ids:
  "cellIdCounter (for_upto i n (\<lambda>i t. cell_upd p (\<lambda>k. k\<lparr>genome := (genome k)(i := outputBuf t i)\<rparr>) t) a) = cellIdCounter a \<and>
   (\<forall>q. ID (pond (for_upto i n (\<lambda>i t. cell_upd p (\<lambda>k. k\<lparr>genome := (genome k)(i := outputBuf t i)\<rparr>) t) a) q) = ID (pond a q) \<and>
        parentID (pond (for_upto i n (\<lambda>i t. cell_upd p (\<lambda>k. k\<lparr>genome := (genome k)(i := outputBuf t i)\<rparr>) t) a) q) = parentID (pond a q) \<and>
        lineage (pond (for_upto i n (\<lambda>i t. cell_upd p (\<lambda>k. k\<lparr>genome := (genome k)(i := outputBuf t i)\<rparr>) t) a) q) = lineage (pond a q) \<and>
        generation (pond (for_upto i n (\<lambda>i t. cell_upd p (\<lambda>k. k\<lparr>genome := (genome k)(i := outputBuf t i)\<rparr>) t) a) q) = generation (pond a q))"
  by (rule loop_keeps_ids) simp

lemma random_ram_keeps_ids:
  "cellIdCounter (for_upto i n (\<lambda>i t.
       cell_upd p (\<lambda>k. k\<lparr>ram := (ram k)(i := ucast (fst (draw t) AND REG_MASK))\<rparr>) (snd (draw t))) a) = cellIdCounter a \<and>
   (\<forall>q. ID (pond (for_upto i n (\<lambda>i t.
       cell_upd p (\<lambda>k. k\<lparr>ram := (ram k)(i := ucast (fst (draw t) AND REG_MASK))\<rparr>) (snd (draw t))) a) q) = ID (pond a q) \<and>
        parentID (pond (for_upto i n (\<lambda>i t.
       cell_upd p (\<lambda>k. k\<lparr>ram := (ram k)(i := ucast (fst (draw t) AND REG_MASK))\<rparr>) (snd (draw t))) a) q) = parentID (pond a q) \<and>
        lineage (pond (for_upto i n (\<lambda>i t.
       cell_upd p (\<lambda>k. k\<lparr>ram := (ram k)(i := ucast (fst (draw t) AND REG_MASK))\<rparr>) (snd (draw t))) a) q) = lineage (pond a q) \<and>
        generation (pond (for_upto i n (\<lambda>i t.
       cell_upd p (\<lambda>k. k\<lparr>ram := (ram k)(i := ucast (fst (draw t) AND REG_MASK))\<rparr>) (snd (draw t))) a) q) = generation (pond a q))"
  by (rule loop_keeps_ids) simp

lemma random_genome_keeps_ids:
  "cellIdCounter (for_upto i n (\<lambda>i t.
       cell_upd p (\<lambda>k. k\<lparr>genome := (genome k)(i := ucast (fst (draw t) AND INST_MASK))\<rparr>) (snd (draw t))) a) = cellIdCounter a \<and>
   (\<forall>q. ID (pond (for_upto i n (\<lambda>i t.
       cell_upd p (\<lambda>k. k\<lparr>genome := (genome k)(i := ucast (fst (draw t) AND INST_MASK))\<rparr>) (snd (draw t))) a) q) = ID (pond a q) \<and>
        parentID (pond (for_upto i n (\<lambda>i t.
       cell_upd p (\<lambda>k. k\<lparr>genome := (genome k)(i := ucast (fst (draw t) AND INST_MASK))\<rparr>) (snd (draw t))) a) q) = parentID (pond a q) \<and>
        lineage (pond (for_upto i n (\<lambda>i t.
       cell_upd p (\<lambda>k. k\<lparr>genome := (genome k)(i := ucast (fst (draw t) AND INST_MASK))\<rparr>) (snd (draw t))) a) q) = lineage (pond a q) \<and>
        generation (pond (for_upto i n (\<lambda>i t.
       cell_upd p (\<lambda>k. k\<lparr>genome := (genome k)(i := ucast (fst (draw t) AND INST_MASK))\<rparr>) (snd (draw t))) a) q) = generation (pond a q))"
  by (rule loop_keeps_ids) simp

lemma ucast8_eq_0: "(ucast (b :: uint8) :: uintptr) = 0 \<longleftrightarrow> b = 0"
proof
  assume "(ucast b :: uintptr) = 0"
  then have "unat (ucast b :: uintptr) = 0" by simp
  moreover have "unat b < 256" using unsigned_less [of b, where 'a = nat] by simp
  ultimately have "unat b = 0" by (simp add: unsigned_ucast_eq take_bit_eq_mod)
  then show "b = 0" by (simp add: unat_eq_0)
qed simp

text \<open>A birth: the child receives the incremented counter as its \<open>ID\<close>, and the
  counter stays at that value.\<close>

lemma reproduce_birth:
  assumes e: "energy (pond s (x, y)) \<ge> REPRODUCTION_COST"
    and o: "outputBuf s 0 \<noteq> 0"
    and nb: "getNeighbor POND_SIZE_X POND_SIZE_Y x y (facing (pond s (x, y))) = Some n"
    and en: "energy (pond s n) \<noteq> 0"
    and ok: "accessAllowed n (reg s) 0 s = Some (True, s1)"
  shows "\<exists>s'. reproduce x y s = Some (True, s') \<and>
           ID (pond s' n) = cellIdCounter s + 1 \<and> cellIdCounter s' = cellIdCounter s + 1 \<and>
           parentID (pond s' n) = ID (pond s (x, y)) \<and>
           lineage (pond s' n) = lineage (pond s (x, y)) \<and>
           generation (pond s' n) = generation (pond s (x, y)) + 1"
proof -
  have ne: "n \<noteq> (x, y)" using nb by (rule getNeighbor_not_self)
  have s1: "s1 = s\<lparr>rng := snd (getRandom (rng s))\<rparr>" using ok by (rule accessAllowed_state)
  have ok': "accessAllowed n (reg s) 0 s = Some (True, s\<lparr>rng := snd (getRandom (rng s))\<rparr>)"
    using ok unfolding s1 .
  from e have nz: "energy (pond s (x, y)) \<noteq> 0"
    by (auto simp: REPRODUCTION_COST_def)
  from o have o': "(ucast (outputBuf s 0) :: uintptr) \<noteq> OP_STOP"
    by (simp add: OP_STOP_def ucast8_eq_0)
  have r0: "rd POND_DEPTH (outputBuf s) 0 = Some (outputBuf s 0)"
    by (simp add: rd_def POND_DEPTH_def)
  show ?thesis
    using ne e nz o' en
    by (simp add: reproduce_def Let_def case_prod_unfold r0 nb ok' copy_genome_keeps_ids
                  random_ram_keeps_ids)
qed

text \<open>A seeding: the seeded cell receives the counter as its \<open>ID\<close>, and the counter
  is incremented afterwards.\<close>

lemma seed_assigns:
  "\<exists>p s'. seed s = Some (p, s') \<and> ID (pond s' p) = cellIdCounter s \<and>
          cellIdCounter s' = cellIdCounter s + 1"
proof -
  have "unat (fst (draw s)) mod POND_SIZE_X < POND_SIZE_X"
    "unat (fst (draw (snd (draw s)))) mod POND_SIZE_Y < POND_SIZE_Y"
    by (simp_all add: POND_SIZE_X_def POND_SIZE_Y_def)
  then show ?thesis
    by (simp add: seed_def Let_def case_prod_unfold pond_at_def
                  random_genome_keeps_ids random_ram_keeps_ids)
qed


text \<open>A permitted \<open>KILL\<close>: the target receives the counter as its \<open>ID\<close>, and the
  counter is incremented afterwards.\<close>

lemma KILL_assigns:
  assumes nb: "getNeighbor POND_SIZE_X POND_SIZE_Y x y (facing (pond s (x, y))) = Some n"
    and ok: "accessAllowed n (reg s) 0 s = Some (True, s1)"
  shows "\<exists>s'. dispatch x y OP_KILL s = Some (False, s') \<and> ID (pond s' n) = cellIdCounter s \<and>
           cellIdCounter s' = cellIdCounter s + 1"
proof -
  have s1: "s1 = s\<lparr>rng := snd (getRandom (rng s))\<rparr>" using ok by (rule accessAllowed_state)
  have ok': "accessAllowed n (reg s) 0 s = Some (True, s\<lparr>rng := snd (getRandom (rng s))\<rparr>)"
    using ok unfolding s1 .
  show ?thesis
    by (simp add: dispatch_KILL nb ok' Let_def fill_genome)
qed

text \<open>
  C1, on an input where the code departs from it. In \<open>birth_state\<close> the counter
  is 1. The birth into (3, 0) takes place and gives the child the \<open>ID\<close> 2, leaving
  the counter at 2 (\<^verbatim>\<open>tmpptr->ID = ++cellIdCounter\<close>). The seeding that follows
  hands out the counter before incrementing it
  (\<^verbatim>\<open>pptr->ID = cellIdCounter; ... ++cellIdCounter\<close>), so the seeded cell receives the
  \<open>ID\<close> 2 as well: two assignment events hand out the same identifier.
\<close>

theorem birth_then_seed_same_id:
  "\<exists>s1 p s2. reproduce 2 0 birth_state = Some (True, s1) \<and>
      ID (pond s1 (3, 0)) = 2 \<and> cellIdCounter s1 = 2 \<and>
      seed s1 = Some (p, s2) \<and> ID (pond s2 p) = 2"
proof -
  have e: "energy (pond birth_state (2, 0)) \<ge> REPRODUCTION_COST"
    by (simp add: birth_state_def REPRODUCTION_COST_def blank_cell_def)
  have o: "outputBuf birth_state 0 \<noteq> 0" by (simp add: birth_state_def)
  have nb: "getNeighbor POND_SIZE_X POND_SIZE_Y 2 0 (facing (pond birth_state (2, 0))) = Some (3, 0)"
    using getNeighbor_two_cells by (simp add: birth_state_def)
  have en: "energy (pond birth_state (3, 0)) \<noteq> 0"
    by (simp add: birth_state_def blank_cell_def)
  have "parentID (pond birth_state (3, 0)) = 0"
    by (simp add: birth_state_def blank_cell_def)
  then have ok: "accessAllowed (3, 0) (reg birth_state) 0 birth_state =
      Some (True, birth_state\<lparr>rng := snd (getRandom (rng birth_state))\<rparr>)"
    by (rule accessAllowed_parentless)
  have c: "cellIdCounter birth_state = 1" by (simp add: birth_state_def)
  from reproduce_birth [OF e o nb en ok] obtain s1
    where 1: "reproduce 2 0 birth_state = Some (True, s1)"
      and 2: "ID (pond s1 (3, 0)) = 2" and 3: "cellIdCounter s1 = 2"
    by (auto simp: c)
  from seed_assigns [of s1] obtain p s2
    where "seed s1 = Some (p, s2)" and "ID (pond s2 p) = 2"
    by (auto simp: 3)
  with 1 2 3 show ?thesis by blast
qed

end
